theory Spec2Isabelle
  imports Main "HOL-Library.AList" "HOL-Library.Sublist" "HOL-Library.Word"
begin

section \<open>JavaScript values and objects\<close>

text \<open>
  Option records, route rules and queue entries are plain JavaScript objects. A value is
  one of the JSON shapes plus \<open>undefined\<close>; an object is the list of its own properties in
  insertion order. Numbers are only stored, compared with \<open>0\<close> for truthiness and copied,
  so they are integers here.
\<close>

datatype jsval =
    JUndefined
  | JNull
  | JBool bool
  | JNum int
  | JStr string
  | JArr "jsval list"
  | JObj "(string \<times> jsval) list"

type_synonym obj = "(string \<times> jsval) list"

text \<open>The condition of an \<open>if\<close>, of \<open>!x\<close>, \<open>x || y\<close> and \<open>c ? a : b\<close>.\<close>

fun truthy :: "jsval \<Rightarrow> bool" where
  "truthy JUndefined = False"
| "truthy JNull = False"
| "truthy (JBool b) = b"
| "truthy (JNum n) = (n \<noteq> 0)"
| "truthy (JStr s) = (s \<noteq> [])"
| "truthy (JArr xs) = True"
| "truthy (JObj kvs) = True"

text \<open>Property read \<open>ob.k\<close>: a missing property reads as \<open>undefined\<close>.\<close>

definition get :: "obj \<Rightarrow> string \<Rightarrow> jsval" where
  "get ob k = (case map_of ob k of None \<Rightarrow> JUndefined | Some v \<Rightarrow> v)"

text \<open>
  Object spread and \<open>Object.assign\<close>: \<open>{...acc, ...src}\<close> copies the properties of \<open>src\<close>
  over those of \<open>acc\<close>, one assignment per property, in order. An assignment to an existing
  key keeps its position, a new key goes to the end (\<open>AList.update\<close>).
\<close>

definition spread :: "obj \<Rightarrow> obj \<Rightarrow> obj" where
  "spread acc src = fold (\<lambda>(k, v). AList.update k v) src acc"

text \<open>
  The properties a spread \<open>...v\<close> copies and a read \<open>v.k\<close> finds: those of an object, none
  for \<open>false\<close> and the other primitives. So \<open>...(v || {})\<close> is \<open>own_props v\<close> as well. (The
  values spread here are typed \<open>false | Record<string, any>\<close>; no string or array, whose
  indices a spread would copy, is passed.)
\<close>

fun own_props :: "jsval \<Rightarrow> obj" where
  "own_props (JObj kvs) = kvs"
| "own_props v = []"

text \<open>Every JavaScript object has each key once.\<close>

definition wf_obj :: "obj \<Rightarrow> bool" where
  "wf_obj ob = distinct (map fst ob)"

section \<open>The \<open>defu\<close> merge of route rules\<close>

text \<open>
  \<open>defu(object, ...defaults)\<close> is the package the module imports to combine the matched
  route rules. It assigns defaults recursively and the leftmost argument has priority:
  \<open>_defu(base, defaults)\<close> starts from a copy of \<open>defaults\<close> and walks the keys of \<open>base\<close>;
  the keys \<open>__proto__\<close> and \<open>constructor\<close> and the values \<open>null\<close> and \<open>undefined\<close> are
  skipped, two arrays are concatenated (those of \<open>base\<close> first), two objects are merged
  recursively, and any other value of \<open>base\<close> replaces the default. (An array of \<open>base\<close>
  that meets an object of \<open>defaults\<close>, or the reverse, replaces it here, as the package does
  since it merges plain objects only; no statement below is about that case.)
\<close>

fun defu_pair :: "obj \<Rightarrow> obj \<Rightarrow> obj" where
  "defu_pair [] object = object"
| "defu_pair ((key, val) # base) object =
     defu_pair base
       (if key = ''__proto__'' \<or> key = ''constructor'' then object
        else case val of
               JUndefined \<Rightarrow> object
             | JNull \<Rightarrow> object
             | JArr a \<Rightarrow>
                 (case map_of object key of
                    Some (JArr b) \<Rightarrow> AList.update key (JArr (a @ b)) object
                  | _ \<Rightarrow> AList.update key val object)
             | JObj a \<Rightarrow>
                 (case map_of object key of
                    Some (JObj b) \<Rightarrow> AList.update key (JObj (defu_pair a b)) object
                  | _ \<Rightarrow> AList.update key val object)
             | _ \<Rightarrow> AList.update key val object)"

text \<open>\<open>defu(...args)\<close> reduces its arguments from the left, starting at \<open>{}\<close>.\<close>

definition defu :: "obj list \<Rightarrow> obj" where
  "defu args = foldl defu_pair [] args"

section \<open>Collection: the \<open>prerender:generate\<close> hook\<close>

text \<open>
  \<open>extractOgImageOptions\<close> (the scanner of the page's markup) and the route matcher's
  \<open>matchAll\<close> are parameters: \<open>extract html\<close> is the options object of the markup, or a
  falsy value when the markup carries none, and \<open>matchAll route\<close> is the list of matching
  route rules in the matcher's order, the most specific rule last.
\<close>

definition route_rules :: "obj list \<Rightarrow> obj" where
  "route_rules matched = defu ([] # rev matched)"

definition entry_path :: "jsval \<Rightarrow> string \<Rightarrow> string" where
  "entry_path extractedOptions route =
     (if truthy (get (own_props extractedOptions) ''component'')
      then ''/api/og-image-html?path='' @ route else route)"

text \<open>The object literal of the hook: route and path, then the extracted options, then the overlay.\<close>

definition make_entry :: "string \<Rightarrow> jsval \<Rightarrow> obj \<Rightarrow> obj" where
  "make_entry route extractedOptions routeRules =
     spread
       (spread [(''route'', JStr route), (''path'', JStr (entry_path extractedOptions route))]
          (own_props extractedOptions))
       (own_props (get routeRules ''ogImage''))"

definition eligible :: "bool \<Rightarrow> obj \<Rightarrow> bool" where
  "eligible generate entry =
     ((generate \<or> truthy (get entry ''static'')) \<and> get entry ''provider'' = JStr ''browser'')"

section \<open>The state of a build\<close>

text \<open>
  What the module and its server plugin keep or touch during one build: the screenshot
  queue of the module, the option cache of the plugin, the files under the public output
  directory, the two resources of a drain (the preview server and the browser) and, in
  order, what the drain printed and which outside calls it made.
\<close>

datatype exn = TypeError | Failure string

type_synonym bytes = "8 word list"

record cache_entry =
  cached_value :: jsval
  expiresAt :: int

datatype proc = Running | Stopped

datatype event =
    SpawnInstaller
  | InfoEnsuringChromium
  | ErrorInstallFailed
  | SpawnPreview
  | CreateBrowser
  | InfoPrerendering nat
  | RedBrowserFailed
  | ConsoleError exn
  | CallScreenshot obj
  | Progress bool bool string int int
  | BrowserClose
  | PreviewKill

record world =
  screenshotQueue :: "obj list"
  optionCacheStorage :: "string \<rightharpoonup> cache_entry"
  files :: "string \<rightharpoonup> bytes"
  previewProcess :: "proc option"
  browser :: "proc option"
  events :: "event list"

text \<open>
  The hook on one generated route: \<open>contents\<close> is \<open>None\<close> for a route without contents
  and \<open>generate\<close> is \<open>nuxt.options._generate\<close>. Each early \<open>return\<close> leaves the state as it
  is; the last statement pushes the entry.
\<close>

definition prerender_generate ::
  "(string \<Rightarrow> jsval) \<Rightarrow> (string \<Rightarrow> obj list) \<Rightarrow> bool \<Rightarrow>
   string \<Rightarrow> string option \<Rightarrow> world \<Rightarrow> world" where
  "prerender_generate extract matchAll generate route contents w =
     (if CHR ''.'' \<in> set route then w
      else case contents of
        None \<Rightarrow> w
      | Some html \<Rightarrow>
          (if html = [] then w
           else if \<not> truthy (extract html)
                   \<or> get (route_rules (matchAll route)) ''ogImage'' = JBool False then w
           else if eligible generate
                     (make_entry route (extract html) (route_rules (matchAll route)))
           then w\<lparr>screenshotQueue := screenshotQueue w @
                   [make_entry route (extract html) (route_rules (matchAll route))]\<rparr>
           else w))"

text \<open>The build runs the hook once for every route it generates, in order.\<close>

definition collect ::
  "(string \<Rightarrow> jsval) \<Rightarrow> (string \<Rightarrow> obj list) \<Rightarrow> bool \<Rightarrow>
   (string \<times> string option) list \<Rightarrow> world \<Rightarrow> world" where
  "collect extract matchAll generate pages w =
     foldl (\<lambda>w' (route, contents). prerender_generate extract matchAll generate route contents w')
       w pages"

text \<open>The options handed to the capture: \<open>{...defaults, ...entry, host}\<close>.\<close>

definition screenshot_options :: "obj \<Rightarrow> obj \<Rightarrow> string \<Rightarrow> obj" where
  "screenshot_options defaults entry host =
     spread (spread defaults entry) [(''host'', JStr host)]"

section \<open>The prerender plugin: the \<open>render:html\<close> hook\<close>

text \<open>\<open>ctx.head.join('\n')\<close>.\<close>

fun join_lines :: "string list \<Rightarrow> string" where
  "join_lines [] = []"
| "join_lines [x] = x"
| "join_lines (x # y # ys) = x @ [CHR 0x0A] @ join_lines (y # ys)"

text \<open>
  The plugin registers its hook only when \<open>process.env.prerender\<close> is set. The hook gets
  the request's url and the head chunks of the rendered page; \<open>now\<close> is the reading of
  \<open>Date.now()\<close>, \<open>joinURL\<close> the url helper the plugin imports, and \<open>headers\<close> the response
  headers of the event, to which \<open>appendHeader\<close> adds at the end.
\<close>

definition render_html ::
  "(string \<Rightarrow> jsval) \<Rightarrow> (string list \<Rightarrow> string) \<Rightarrow> bool \<Rightarrow> bool \<Rightarrow> int \<Rightarrow>
   string \<Rightarrow> string list \<Rightarrow> (string \<times> string) list \<times> world \<Rightarrow>
   (string \<times> string) list \<times> world" where
  "render_html extract joinURL prerender forcePrerender now url head hw =
     (case hw of (headers, w) \<Rightarrow>
        if \<not> prerender then (headers, w)
        else if CHR ''.'' \<in> set url \<or> prefix ''/__nuxt_island/'' url then (headers, w)
        else if \<not> truthy (extract (join_lines head)) then (headers, w)
        else
          (if (forcePrerender \<or> truthy (get (own_props (extract (join_lines head))) ''static''))
              \<and> get (own_props (extract (join_lines head))) ''provider'' = JStr ''satori''
           then headers @ [(''x-nitro-prerender'', joinURL [url, ''/__og_image__/og.png''])]
           else headers,
           w\<lparr>optionCacheStorage := (optionCacheStorage w)
               (url := Some \<lparr>cached_value = extract (join_lines head),
                      expiresAt = now +
                        (if truthy (get (own_props (extract (join_lines head))) ''static'')
                         then 60 * 60 * 1000 else 5 * 1000)\<rparr>)\<rparr>))"

section \<open>Font loading\<close>

record font =
  name :: string
  weight :: nat
  data :: "bytes option"
  key :: "string option"
  path :: "string option"

text \<open>Decimal digits of a number, as a template literal prints it.\<close>

definition digit :: "nat \<Rightarrow> char" where
  "digit n = ''0123456789'' ! n"

fun show_nat :: "nat \<Rightarrow> string" where
  "show_nat n =
     (if n < 10 then [digit n] else show_nat (n div 10) @ [digit (n mod 10)])"

declare show_nat.simps [simp del]

text \<open>What \<open>e.$fetch\<close> is asked for: the url and, for a local font, the base url.\<close>

record request =
  req_url :: string
  req_baseURL :: "string option"

text \<open>
  \<open>loadFont\<close> reads the storage mounted at \<open>/assets\<close> (\<open>hasItem\<close>, \<open>getItem\<close>) and
  fetches through the event. \<open>decode\<close> is \<open>Buffer.from(_, 'base64')\<close>, \<open>fetch\<close> the event's
  \<open>$fetch\<close>, which returns the bytes or throws, and \<open>origin\<close> is \<open>useNitroOrigin(e)\<close>.
  The result is the font it returns, or the error of the fetch, together with the storage
  after the call.
\<close>

definition loadFont ::
  "(string \<Rightarrow> bytes) \<Rightarrow> (request \<Rightarrow> exn + bytes) \<Rightarrow> string \<Rightarrow>
   font \<Rightarrow> (string \<rightharpoonup> string) \<Rightarrow> (exn + font) \<times> (string \<rightharpoonup> string)" where
  "loadFont decode fetch origin fnt assets =
     (if data fnt \<noteq> None then (Inr fnt, assets)
      else case (case key fnt of
                   None \<Rightarrow> None
                 | Some k \<Rightarrow> if k = [] then None else assets k) of
        Some fontData \<Rightarrow> (Inr (fnt\<lparr>data := Some (decode fontData)\<rparr>), assets)
      | None \<Rightarrow>
          (case fetch (case path fnt of
                         Some p \<Rightarrow>
                           if p \<noteq> [] then \<lparr>req_url = p, req_baseURL = Some origin\<rparr>
                           else \<lparr>req_url = ''/__og-image__/font/'' @ name fnt @ ''/''
                                             @ show_nat (weight fnt) @ ''.ttf'',
                                  req_baseURL = None\<rparr>
                       | None \<Rightarrow>
                           \<lparr>req_url = ''/__og-image__/font/'' @ name fnt @ ''/''
                                       @ show_nat (weight fnt) @ ''.ttf'',
                            req_baseURL = None\<rparr>) of
             Inl err \<Rightarrow> (Inl err, assets)
           | Inr d \<Rightarrow> (Inr (fnt\<lparr>data := Some d\<rparr>), assets)))"

section \<open>Draining: \<open>captureScreenshots\<close>\<close>

text \<open>
  What the drain gets from outside, one field per collaborator:
  \<^item> \<open>callHook\<close>: the \<open>og-image:prerenderScreenshots\<close> hook, which may add entries to the
    queue it is given, or throw;
  \<^item> \<open>installExit\<close>: the code the installer's \<open>exit\<close> event carries (\<open>None\<close> for \<open>null\<close>);
  \<^item> \<open>stdout\<close>: the chunks of output the preview server emits, in order;
  \<^item> \<open>createBrowser\<close>: throws, or returns a browser (\<open>True\<close>) or nothing (\<open>False\<close>);
  \<^item> \<open>closeBrowser\<close>: the error \<open>browser.close()\<close> rejects with, if it does;
  \<^item> \<open>fetch\<close>: \<open>$fetch\<close> with an optional base url, \<open>screenshot\<close> and \<open>writeFile\<close>: each
    returns or throws;
  \<^item> \<open>clock\<close>: the two readings of \<open>Date.now()\<close> around job \<open>k\<close>;
  \<^item> \<open>percent\<close>: \<open>Math.round((k + 1) / n * 100)\<close>, a double-precision computation that is
    not unfolded here;
  \<^item> \<open>joinURL\<close>, \<open>withBase\<close>, \<open>relative\<close>: the url and path helpers of the imported packages;
  \<^item> \<open>publicDir\<close>, \<open>baseURL\<close>, \<open>defaults\<close>: \<open>nitro.options.output.publicDir\<close>,
    \<open>nuxt.options.app.baseURL\<close> and \<open>config.defaults\<close>.
\<close>

record env =
  callHook :: "obj list \<Rightarrow> exn + obj list"
  installExit :: "int option"
  stdout :: "string list"
  createBrowser :: "exn + bool"
  closeBrowser :: "exn option"
  fetch :: "string option \<Rightarrow> jsval \<Rightarrow> exn + string"
  screenshot :: "obj \<Rightarrow> exn + bytes"
  writeFile :: "string \<Rightarrow> bytes \<Rightarrow> exn option"
  clock :: "nat \<Rightarrow> int \<times> int"
  percent :: "nat \<Rightarrow> nat \<Rightarrow> int"
  joinURL :: "string list \<Rightarrow> string"
  withBase :: "string \<Rightarrow> string \<Rightarrow> string"
  relative :: "string \<Rightarrow> string \<Rightarrow> string"
  publicDir :: string
  baseURL :: string
  defaults :: obj

text \<open>
  The completion of one queue entry. An entry that holds a route and nothing else is a stub
  put there by the hook: its page is fetched from the preview server and the result of the
  scan and of the route rules is assigned to it; reading \<open>.component\<close> of \<open>undefined\<close> or
  \<open>null\<close> is a TypeError. An entry with a component then gets the html of its path.
  (\<open>route\<close> is typed as a string.) The entry is an object of the queue and is changed in
  place: an error of \<open>complete_entry\<close> comes with the entry as it is by then.
\<close>

definition complete_stub ::
  "env \<Rightarrow> (string \<Rightarrow> jsval) \<Rightarrow> (string \<Rightarrow> obj list) \<Rightarrow> string \<Rightarrow> obj \<Rightarrow> exn + obj" where
  "complete_stub env extract matchAll host entry =
     (case get entry ''route'' of
        JStr route \<Rightarrow>
          if route \<noteq> [] \<and> length entry = 1 then
            (case fetch env (Some (withBase env (baseURL env) host)) (JStr route) of
               Inl err \<Rightarrow> Inl err
             | Inr html \<Rightarrow>
                 if extract html = JUndefined \<or> extract html = JNull then Inl TypeError
                 else Inr (spread entry
                        (spread
                          (spread [(''path'', JStr (entry_path (extract html) route))]
                             (own_props (extract html)))
                          (own_props (get (route_rules (matchAll route)) ''ogImage'')))))
          else Inr entry
      | _ \<Rightarrow> Inr entry)"

definition complete_entry ::
  "env \<Rightarrow> (string \<Rightarrow> jsval) \<Rightarrow> (string \<Rightarrow> obj list) \<Rightarrow> string \<Rightarrow> obj \<Rightarrow>
   (exn \<times> obj) + obj" where
  "complete_entry env extract matchAll host entry =
     (case complete_stub env extract matchAll host entry of
        Inl err \<Rightarrow> Inl (err, entry)
      | Inr entry' \<Rightarrow>
          if truthy (get entry' ''component'') then
            (case fetch env None (get entry' ''path'') of
               Inl err \<Rightarrow> Inl (err, entry')
             | Inr html \<Rightarrow> Inr (AList.update ''html'' (JStr html) entry'))
          else Inr entry')"

text \<open>
  The first loop over the queue; the first error ends it, and comes with the queue as the
  loop has left it: the entries before completed, the one at the error as it is by then,
  the ones after untouched.
\<close>

fun completion_pass ::
  "env \<Rightarrow> (string \<Rightarrow> jsval) \<Rightarrow> (string \<Rightarrow> obj list) \<Rightarrow> string \<Rightarrow> obj list \<Rightarrow>
   (exn \<times> obj list) + obj list" where
  "completion_pass env extract matchAll host [] = Inr []"
| "completion_pass env extract matchAll host (entry # rest) =
     (case complete_entry env extract matchAll host entry of
        Inl (err, entry') \<Rightarrow> Inl (err, entry' # rest)
      | Inr entry' \<Rightarrow>
          (case completion_pass env extract matchAll host rest of
             Inl (err, rest') \<Rightarrow> Inl (err, entry' # rest')
           | Inr rest' \<Rightarrow> Inr (entry' # rest')))"

text \<open>
  One iteration of the second loop, for the entry at index \<open>k\<close> of a queue of \<open>n\<close>. The inner
  \<open>try\<close> covers the capture and the write; an error of \<open>mkdirp\<close> is dropped by its own empty
  \<open>catch\<close> and changes nothing here. The progress line is printed after the \<open>try\<close>, in either
  case: \<open>Progress last hasError file ms pct\<close>.
\<close>

definition route_of :: "obj \<Rightarrow> string" where
  "route_of entry = (case get entry ''route'' of JStr r \<Rightarrow> r | _ \<Rightarrow> [])"

definition filename_of :: "env \<Rightarrow> obj \<Rightarrow> string" where
  "filename_of env entry =
     joinURL env [joinURL env [publicDir env, route_of entry, ''/__og_image__/''], ''/og.png'']"

definition capture_job :: "env \<Rightarrow> string \<Rightarrow> nat \<Rightarrow> nat \<Rightarrow> obj \<Rightarrow> world \<Rightarrow> world" where
  "capture_job env host n k entry w =
     (let opts = screenshot_options (defaults env) entry host;
          filename = filename_of env entry;
          w1 = w\<lparr>events := events w @ [CallScreenshot opts]\<rparr>;
          tried =
            (case screenshot env opts of
               Inl err \<Rightarrow> (True, w1\<lparr>events := events w1 @ [ConsoleError err]\<rparr>)
             | Inr imgBuffer \<Rightarrow>
                 (case writeFile env filename imgBuffer of
                    Some err \<Rightarrow> (True, w1\<lparr>events := events w1 @ [ConsoleError err]\<rparr>)
                  | None \<Rightarrow> (False, w1\<lparr>files := (files w1)(filename := Some imgBuffer)\<rparr>)))
      in (snd tried)\<lparr>events := events (snd tried) @
            [Progress (k = n - 1) (fst tried) (relative env (publicDir env) filename)
               (snd (clock env k) - fst (clock env k)) (percent env k n)]\<rparr>)"

fun capture_pass :: "env \<Rightarrow> string \<Rightarrow> nat \<Rightarrow> nat \<Rightarrow> obj list \<Rightarrow> world \<Rightarrow> world" where
  "capture_pass env host n k [] w = w"
| "capture_pass env host n k (entry # rest) w =
     capture_pass env host n (Suc k) rest (capture_job env host n k entry w)"

text \<open>
  A call of \<open>captureScreenshots\<close> returns, rejects (with the error of the hook or of the
  \<open>finally\<close>), or never gets past the wait for the preview server.
\<close>

datatype outcome = Returned world | Threw exn world | Waiting world

fun world_of :: "outcome \<Rightarrow> world" where
  "world_of (Returned w) = w"
| "world_of (Threw err w) = w"
| "world_of (Waiting w) = w"

text \<open>
  The body of the outer \<open>try\<close>, once the address of the preview server is known: the state
  it reaches, and the error that ended it, if one did.
\<close>

definition drain_body ::
  "env \<Rightarrow> (string \<Rightarrow> jsval) \<Rightarrow> (string \<Rightarrow> obj list) \<Rightarrow> string \<Rightarrow> world \<Rightarrow>
   world \<times> exn option" where
  "drain_body env extract matchAll host w =
     (case createBrowser env of
        Inl err \<Rightarrow> (w\<lparr>events := events w @ [CreateBrowser]\<rparr>, Some err)
      | Inr False \<Rightarrow> (w\<lparr>events := events w @ [CreateBrowser, RedBrowserFailed]\<rparr>, None)
      | Inr True \<Rightarrow>
          (case completion_pass env extract matchAll host (screenshotQueue w) of
             Inl (err, queue) \<Rightarrow>
               (w\<lparr>browser := Some Running, screenshotQueue := queue,
                  events := events w @
                    [CreateBrowser, InfoPrerendering (length (screenshotQueue w))]\<rparr>,
                Some err)
           | Inr queue \<Rightarrow>
               (capture_pass env host (length queue) 0 queue
                  (w\<lparr>browser := Some Running, screenshotQueue := queue,
                     events := events w @
                       [CreateBrowser, InfoPrerendering (length (screenshotQueue w))]\<rparr>),
                None)))"

text \<open>
  The wait for the preview server. The listener on its output resolves the promise at the
  first chunk that includes \<open>Accepting connections at\<close>, with
  \<open>data.toString().split('Accepting connections at ')[1]\<close>: the text between the first and
  the second occurrence of the phrase followed by a space, and \<open>undefined\<close> when the chunk
  has the phrase but never followed by a space. \<open>.trim()\<close> is then applied inside the \<open>try\<close>
  and is a TypeError on \<open>undefined\<close>. When no chunk includes the phrase the promise is never
  resolved. (\<open>trim\<close> removes white space at both ends; a chunk is taken as the text it
  decodes to, of characters below 256, where the white space is the ASCII one and the
  no-break space.)
\<close>

fun after_first :: "string \<Rightarrow> string \<Rightarrow> string option" where
  "after_first sep [] = (if sep = [] then Some [] else None)"
| "after_first sep (c # cs) =
     (if prefix sep (c # cs) then Some (drop (length sep) (c # cs)) else after_first sep cs)"

fun before_first :: "string \<Rightarrow> string \<Rightarrow> string" where
  "before_first sep [] = []"
| "before_first sep (c # cs) = (if prefix sep (c # cs) then [] else c # before_first sep cs)"

definition is_space :: "char \<Rightarrow> bool" where
  "is_space c = (c \<in> set [CHR '' '', CHR 0x09, CHR 0x0A, CHR 0x0B, CHR 0x0C, CHR 0x0D, CHR 0xA0])"

definition trim :: "string \<Rightarrow> string" where
  "trim s = rev (dropWhile is_space (rev (dropWhile is_space s)))"

fun read_host :: "string list \<Rightarrow> (exn + string) option" where
  "read_host [] = None"
| "read_host (chunk # chunks) =
     (if after_first ''Accepting connections at'' chunk \<noteq> None
      then Some (case after_first ''Accepting connections at '' chunk of
                   None \<Rightarrow> Inl TypeError
                 | Some rest \<Rightarrow> Inr (trim (before_first ''Accepting connections at '' rest)))
      else read_host chunks)"

text \<open>
  The steps around the \<open>try\<close>. \<open>launch\<close>: the installer is run and its exit awaited (a code
  other than \<open>0\<close> prints an error and nothing else), then the preview server is started and
  \<open>browser\<close> is declared as \<open>null\<close>. \<open>try_body\<close>: the whole body of the \<open>try\<close>, which ends with
  the TypeError of \<open>.trim()\<close> when no address was read. \<open>catch_error\<close>: the \<open>catch\<close> prints
  the error. \<open>finally_close\<close>: the \<open>finally\<close> awaits \<open>browser?.close()\<close> and then kills the
  preview server; when \<open>close()\<close> rejects, the kill is not reached and the error leaves the
  \<open>finally\<close>.
\<close>

definition launch :: "env \<Rightarrow> obj list \<Rightarrow> world \<Rightarrow> world" where
  "launch env queue w =
     w\<lparr>screenshotQueue := queue,
       events := events w @ [InfoEnsuringChromium, SpawnInstaller]
         @ (if installExit env \<noteq> Some 0 then [ErrorInstallFailed] else [])
         @ [SpawnPreview],
       previewProcess := Some Running,
       browser := None\<rparr>"

definition try_body ::
  "env \<Rightarrow> (string \<Rightarrow> jsval) \<Rightarrow> (string \<Rightarrow> obj list) \<Rightarrow> exn + string \<Rightarrow> world \<Rightarrow>
   world \<times> exn option" where
  "try_body env extract matchAll parsed w =
     (case parsed of
        Inl err \<Rightarrow> (w, Some err)
      | Inr host \<Rightarrow> drain_body env extract matchAll host w)"

definition catch_error :: "world \<times> exn option \<Rightarrow> world" where
  "catch_error tried =
     (case snd tried of
        None \<Rightarrow> fst tried
      | Some err \<Rightarrow> (fst tried)\<lparr>events := events (fst tried) @ [ConsoleError err]\<rparr>)"

definition finally_close :: "env \<Rightarrow> world \<Rightarrow> world \<times> exn option" where
  "finally_close env w =
     (case browser w of
        None \<Rightarrow>
          (w\<lparr>previewProcess := Some Stopped, events := events w @ [PreviewKill]\<rparr>, None)
      | Some b \<Rightarrow>
          (case closeBrowser env of
             Some err \<Rightarrow> (w\<lparr>events := events w @ [BrowserClose]\<rparr>, Some err)
           | None \<Rightarrow>
               (w\<lparr>browser := Some Stopped, previewProcess := Some Stopped,
                  events := events w @ [BrowserClose, PreviewKill]\<rparr>,
                None)))"

text \<open>
  The whole function: the hook is called with the queue; an empty queue ends the call; else
  the processes are launched, the address of the preview server is awaited, the body runs
  under its \<open>catch\<close> and \<open>finally\<close>, and the queue is reset, unless the \<open>finally\<close> threw: then
  the call rejects with that error and the reset is not reached.
\<close>

definition captureScreenshots ::
  "env \<Rightarrow> (string \<Rightarrow> jsval) \<Rightarrow> (string \<Rightarrow> obj list) \<Rightarrow> world \<Rightarrow> outcome" where
  "captureScreenshots env extract matchAll w =
     (case callHook env (screenshotQueue w) of
        Inl err \<Rightarrow> Threw err w
      | Inr queue \<Rightarrow>
          if queue = [] then Returned (w\<lparr>screenshotQueue := queue\<rparr>)
          else
            (case read_host (stdout env) of
               None \<Rightarrow> Waiting (launch env queue w)
             | Some parsed \<Rightarrow>
                 (case finally_close env
                         (catch_error
                            (try_body env extract matchAll parsed (launch env queue w))) of
                    (w', Some err) \<Rightarrow> Threw err w'
                  | (w', None) \<Rightarrow> Returned (w'\<lparr>screenshotQueue := []\<rparr>))))"

section \<open>Notions used in the statements\<close>

text \<open>
  The route rules the matcher hands over are objects, and so is the overlay under their
  \<open>ogImage\<close> key when it is not \<open>false\<close>: each has every key once.
\<close>

definition wf_rule :: "obj \<Rightarrow> bool" where
  "wf_rule r = (wf_obj r \<and> wf_obj (own_props (get r ''ogImage'')))"

text \<open>A value that is neither \<open>null\<close> or \<open>undefined\<close> nor an array or an object.\<close>

definition scalar :: "jsval \<Rightarrow> bool" where
  "scalar v = (case v of JBool b \<Rightarrow> True | JNum n \<Rightarrow> True | JStr s \<Rightarrow> True | _ \<Rightarrow> False)"

text \<open>
  What \<open>_defu(base, defaults)\<close> leaves under one key, from what \<open>base\<close> and \<open>defaults\<close> hold
  under it (\<open>map_of_defu_pair\<close> below).
\<close>

definition defu_field :: "string \<Rightarrow> jsval option \<Rightarrow> jsval option \<Rightarrow> jsval option" where
  "defu_field k bv dv =
     (case bv of
        None \<Rightarrow> dv
      | Some v \<Rightarrow>
          if k = ''__proto__'' \<or> k = ''constructor'' \<or> v = JUndefined \<or> v = JNull then dv
          else Some (case (v, dv) of
                       (JArr a, Some (JArr b)) \<Rightarrow> JArr (a @ b)
                     | (JObj a, Some (JObj b)) \<Rightarrow> JObj (defu_pair a b)
                     | _ \<Rightarrow> v))"

definition overlay_val :: "jsval option \<Rightarrow> obj" where
  "overlay_val x = (case x of None \<Rightarrow> [] | Some v \<Rightarrow> own_props v)"

text \<open>
  The resolution as the specification words it: a field-by-field shallow merge of the
  defaults, the extracted options and the overlays from the least to the most specific,
  where a later layer replaces the fields of the earlier ones.
\<close>

definition spec_merge :: "obj list \<Rightarrow> obj" where
  "spec_merge layers = foldl spread [] layers"

definition spec_resolve :: "obj \<Rightarrow> obj list \<Rightarrow> obj \<Rightarrow> obj" where
  "spec_resolve e overlays d = spec_merge (d # e # overlays)"

text \<open>
  Whether the inner \<open>try\<close> of a job ends in its \<open>catch\<close>: the capture throws, or the write
  of its result does.
\<close>

definition job_failed :: "env \<Rightarrow> string \<Rightarrow> obj \<Rightarrow> bool" where
  "job_failed env host entry =
     (case screenshot env (screenshot_options (defaults env) entry host) of
        Inl err \<Rightarrow> True
      | Inr imgBuffer \<Rightarrow> writeFile env (filename_of env entry) imgBuffer \<noteq> None)"

fun is_progress :: "event \<Rightarrow> bool" where
  "is_progress (Progress l f file ms pct) = True"
| "is_progress ev = False"

fun is_call :: "event \<Rightarrow> bool" where
  "is_call (CallScreenshot opts) = True"
| "is_call ev = False"

text \<open>A state with events put in front of its trace.\<close>

definition prepend :: "event list \<Rightarrow> world \<Rightarrow> world" where
  "prepend evs w = w\<lparr>events := evs @ events w\<rparr>"

text \<open>Two outcomes of the same kind: both returned, both waiting, or both the same rejection.\<close>

fun same_kind :: "outcome \<Rightarrow> outcome \<Rightarrow> bool" where
  "same_kind (Returned w) (Returned w') = True"
| "same_kind (Threw err w) (Threw err' w') = (err = err')"
| "same_kind (Waiting w) (Waiting w') = True"
| "same_kind out out' = False"


text \<open>
  The state after the launch, without its trace, and the trace of the launch: the events so
  far, the installer, its error line when the exit code is not \<open>0\<close>, and the preview server.
\<close>

definition launched :: "obj list \<Rightarrow> world \<Rightarrow> world" where
  "launched queue w =
     w\<lparr>screenshotQueue := queue, events := [], previewProcess := Some Running, browser := None\<rparr>"

definition launch_events :: "env \<Rightarrow> world \<Rightarrow> event list" where
  "launch_events env w =
     events w @ [InfoEnsuringChromium, SpawnInstaller]
       @ (if installExit env \<noteq> Some 0 then [ErrorInstallFailed] else []) @ [SpawnPreview]"

section \<open>Concrete inputs\<close>

text \<open>A fresh build, two sets of route rules, the options of a page and the module's defaults.\<close>

definition empty_world :: world where
  "empty_world = \<lparr>screenshotQueue = [], optionCacheStorage = Map.empty, files = Map.empty,
     previewProcess = None, browser = None, events = []\<rparr>"

definition blog_rules :: "obj list" where
  "blog_rules =
     [[(''ogImage'', JObj [(''width'', JNum 1000), (''height'', JNum 500)])],
      [(''ogImage'', JObj [(''width'', JNum 800)])]]"

definition nested_rules :: "obj list" where
  "nested_rules =
     [[(''ogImage'', JObj [(''props'', JObj [(''a'', JNum 1)]), (''tags'', JArr [JStr ''x''])])],
      [(''ogImage'', JObj [(''props'', JObj [(''b'', JNum 2)]), (''tags'', JArr [JStr ''y''])])]]"


definition page_options :: jsval where
  "page_options = JObj [(''provider'', JStr ''browser''), (''static'', JBool True), (''width'', JNum 600)]"

definition module_defaults :: obj where
  "module_defaults = [(''component'', JStr ''OgImageBasic''), (''width'', JNum 1200), (''height'', JNum 630)]"

definition dynamic_options :: jsval where
  "dynamic_options = JObj [(''provider'', JStr ''satori''), (''width'', JNum 600)]"

definition static_options :: jsval where
  "static_options = JObj [(''provider'', JStr ''satori''), (''static'', JBool True)]"

definition inter_font :: font where
  "inter_font = \<lparr>name = ''Inter'', weight = 400, data = None, key = Some ''inter-400'',
     path = None\<rparr>"

text \<open>
  A drain: a \<open>joinURL\<close> for plain paths, two resolved jobs and a stub, a queue that holds the
  stub, and collaborators of which the installer exits with 1, every fetch is refused and the
  capture of \<open>/a\<close> times out.
\<close>

fun strip_slash :: "string \<Rightarrow> string" where
  "strip_slash (c # cs) = (if c = CHR ''/'' then cs else c # cs)"
| "strip_slash [] = []"

definition simple_joinURL :: "string list \<Rightarrow> string" where
  "simple_joinURL segments =
     (case segments of
        [] \<Rightarrow> []
      | base # rest \<Rightarrow>
          foldl (\<lambda>url seg. if seg = [] \<or> seg = ''/'' then url
                            else if url = [] then seg
                            else (if last url = CHR ''/'' then url else url @ ''/'')
                                 @ strip_slash seg)
            base rest)"

definition job_a :: obj where
  "job_a = [(''route'', JStr ''/a''), (''path'', JStr ''/a''), (''provider'', JStr ''browser''),
     (''static'', JBool True)]"

definition job_b :: obj where
  "job_b = [(''route'', JStr ''/b''), (''path'', JStr ''/b''), (''provider'', JStr ''browser''),
     (''static'', JBool True)]"

definition stub_c :: obj where
  "stub_c = [(''route'', JStr ''/c'')]"

definition queued_world :: world where
  "queued_world = empty_world\<lparr>screenshotQueue := [stub_c, job_b]\<rparr>"

definition test_env :: env where
  "test_env =
     \<lparr>callHook = (\<lambda>queue. Inr queue),
      installExit = Some 1,
      stdout = [''INFO: Accepting connections at http://localhost:3000'' @ [CHR 0x0A]],
      createBrowser = Inr True,
      closeBrowser = None,
      fetch = (\<lambda>base request. Inl (Failure ''ECONNREFUSED'')),
      screenshot = (\<lambda>opts. if get opts ''route'' = JStr ''/a'' then Inl (Failure ''timeout'')
                           else Inr [137, 80, 78, 71]),
      writeFile = (\<lambda>file bytes. None),
      clock = (\<lambda>k. (1000 * int k, 1000 * int k + 7)),
      percent = (\<lambda>k n. int ((200 * (k + 1) + n) div (2 * n))),
      joinURL = simple_joinURL,
      withBase = (\<lambda>input base. base @ input),
      relative = (\<lambda>from to. drop (Suc (length from)) to),
      publicDir = ''dist'',
      baseURL = ''/'',
      defaults = module_defaults\<rparr>"

text \<open>
  Four more builds: a preview server that never prints the readiness phrase, one that
  prints the phrase with nothing after it, a browser whose \<open>close\<close> rejects, and a preview
  server that answers every request.
\<close>

definition silent_env :: env where
  "silent_env = test_env\<lparr>stdout := [''INFO: starting'']\<rparr>"

definition unparsed_env :: env where
  "unparsed_env = test_env\<lparr>stdout := [''Accepting connections at'']\<rparr>"

definition stuck_env :: env where
  "stuck_env = test_env\<lparr>closeBrowser := Some (Failure ''Target closed'')\<rparr>"


text \<open>A page that names a component, and a preview server that renders it.\<close>

definition card_options :: jsval where
  "card_options = JObj [(''provider'', JStr ''browser''), (''component'', JStr ''Card'')]"

definition preview_env :: env where
  "preview_env = test_env\<lparr>fetch := (\<lambda>base request.
     if request = JStr ''/api/og-image-html?path=/blog/post-1'' then Inr ''<div>card</div>''
     else Inl (Failure ''ECONNREFUSED''))\<rparr>"

section \<open>Objects, spreads and the merge of rules\<close>

lemma distinct_map_of_rev: "distinct (map fst xs) \<Longrightarrow> map_of (rev xs) = map_of xs"
proof (induction xs)
  case Nil
  then show ?case by simp
next
  case (Cons p xs)
  then have "map_of xs (fst p) = None"
    by (simp add: map_of_eq_None_iff)
  with Cons show ?case
    by (auto simp: map_add_def fun_eq_iff split: option.splits)
qed

lemma map_of_spread_rev:
  "map_of (spread acc src) k = (case map_of (rev src) k of Some v \<Rightarrow> Some v | None \<Rightarrow> map_of acc k)"
proof (induction src arbitrary: acc)
  case Nil
  then show ?case by (simp add: spread_def)
next
  case (Cons p src)
  obtain a b where p: "p = (a, b)" by (cases p)
  have "spread acc (p # src) = spread (AList.update a b acc) src"
    by (simp add: spread_def p)
  then show ?case
    using Cons.IH [of "AList.update a b acc"]
    by (auto simp: p update_conv' map_add_def split: option.splits)
qed

lemma map_of_spread:
  "wf_obj src \<Longrightarrow>
   map_of (spread acc src) k = (case map_of src k of Some v \<Rightarrow> Some v | None \<Rightarrow> map_of acc k)"
  by (simp add: map_of_spread_rev wf_obj_def distinct_map_of_rev)

lemma get_spread:
  "wf_obj src \<Longrightarrow>
   get (spread acc src) k = (case map_of src k of Some v \<Rightarrow> v | None \<Rightarrow> get acc k)"
  by (simp add: get_def map_of_spread split: option.splits)

lemma wf_defu_pair: "wf_obj object \<Longrightarrow> wf_obj (defu_pair base object)"
  by (induction base object rule: defu_pair.induct)
     (auto simp: wf_obj_def distinct_update split: jsval.splits option.splits)

lemma map_of_defu_pair:
  "wf_obj base \<Longrightarrow>
   map_of (defu_pair base object) k = defu_field k (map_of base k) (map_of object k)"
proof (induction base arbitrary: object)
  case Nil
  then show ?case by (simp add: defu_field_def)
next
  case (Cons p base)
  obtain key val where p: "p = (key, val)" by (cases p)
  from Cons.prems have wf: "wf_obj base" and fresh: "map_of base key = None"
    by (auto simp: wf_obj_def p map_of_eq_None_iff)
  show ?case
  proof (cases "k = key")
    case True
    then show ?thesis
      using Cons.IH [OF wf] fresh
      by (auto simp: p defu_field_def update_conv' split: jsval.splits option.splits)
  next
    case False
    then show ?thesis
      using Cons.IH [OF wf]
      by (auto simp: p update_conv' split: jsval.splits option.splits)
  qed
qed

lemma wf_spread: "wf_obj acc \<Longrightarrow> wf_obj (spread acc src)"
proof (induction src arbitrary: acc)
  case Nil
  then show ?case by (simp add: spread_def)
next
  case (Cons p src)
  have "spread acc (p # src) = spread (AList.update (fst p) (snd p) acc) src"
    by (simp add: spread_def case_prod_beta)
  with Cons show ?case by (simp add: wf_obj_def distinct_update)
qed

lemma defu_nil_cons: "defu ([] # args) = foldl defu_pair [] args"
  by (simp add: defu_def)

lemma wf_foldl_defu_pair:
  "wf_obj acc \<Longrightarrow> \<forall>r \<in> set rs. wf_obj r \<Longrightarrow> wf_obj (foldl defu_pair acc rs)"
  by (induction rs arbitrary: acc) (auto simp: wf_defu_pair)

lemma map_of_foldl_defu_pair:
  "wf_obj acc \<Longrightarrow> \<forall>r \<in> set rs. wf_obj r \<Longrightarrow>
   map_of (foldl defu_pair acc rs) k = foldl (defu_field k) (map_of acc k) (map (\<lambda>r. map_of r k) rs)"
proof (induction rs arbitrary: acc)
  case Nil
  then show ?case by simp
next
  case (Cons r rs)
  then have "wf_obj (defu_pair acc r)" by (simp add: wf_defu_pair)
  with Cons show ?case by (simp add: map_of_defu_pair)
qed

lemma map_of_route_rules:
  "\<forall>r \<in> set ms. wf_obj r \<Longrightarrow>
   map_of (route_rules ms) k = foldl (defu_field k) None (map (\<lambda>r. map_of r k) (rev ms))"
  by (simp add: route_rules_def defu_nil_cons map_of_foldl_defu_pair wf_obj_def)

lemma defu_field_scalar:
  "scalar v \<Longrightarrow> k \<noteq> ''__proto__'' \<Longrightarrow> k \<noteq> ''constructor'' \<Longrightarrow> defu_field k (Some v) dv = Some v"
  by (cases v) (auto simp: defu_field_def scalar_def)


lemma rev_last: "ms \<noteq> [] \<Longrightarrow> rev ms = last ms # rev (butlast ms)"
  by (induction ms rule: rev_induct) simp_all


lemma own_props_get: "own_props (get r k) = overlay_val (map_of r k)"
  by (simp add: get_def overlay_val_def split: option.splits)

lemma wf_obj_Nil: "wf_obj []"
  by (simp add: wf_obj_def)

lemma wf_overlay_defu_field:
  "wf_obj (overlay_val bv) \<Longrightarrow> wf_obj (overlay_val dv) \<Longrightarrow>
   wf_obj (overlay_val (defu_field k bv dv))"
  by (auto simp: defu_field_def overlay_val_def wf_defu_pair wf_obj_Nil
           split: option.splits jsval.splits)

lemma wf_overlay_foldl:
  "wf_obj (overlay_val acc) \<Longrightarrow> \<forall>dv \<in> set dvs. wf_obj (overlay_val dv) \<Longrightarrow>
   wf_obj (overlay_val (foldl (defu_field k) acc dvs))"
  by (induction dvs arbitrary: acc) (simp_all add: wf_overlay_defu_field)

lemma wf_overlay_route_rules:
  assumes "\<forall>r \<in> set ms. wf_rule r"
  shows "wf_obj (own_props (get (route_rules ms) ''ogImage''))"
proof -
  from assms have wf: "\<forall>r \<in> set ms. wf_obj r"
    by (simp add: wf_rule_def)
  from assms have "\<forall>dv \<in> set (map (\<lambda>r. map_of r ''ogImage'') (rev ms)). wf_obj (overlay_val dv)"
    by (simp add: wf_rule_def own_props_get)
  then have "wf_obj (overlay_val (foldl (defu_field ''ogImage'') None
                 (map (\<lambda>r. map_of r ''ogImage'') (rev ms))))"
    by (intro wf_overlay_foldl) (simp_all add: overlay_val_def wf_obj_Nil)
  then show ?thesis
    by (simp add: own_props_get map_of_route_rules [OF wf])
qed

lemma overlay_keeps_scalar:
  assumes "scalar v" "k \<noteq> ''__proto__''" "k \<noteq> ''constructor''"
    and "wf_obj ob" "map_of ob k = Some v"
    and "\<forall>dv \<in> set dvs. wf_obj (overlay_val dv)"
  shows "\<exists>ob'. foldl (defu_field ''ogImage'') (Some (JObj ob)) dvs = Some (JObj ob')
               \<and> wf_obj ob' \<and> map_of ob' k = Some v"
  using assms(4-6)
proof (induction dvs arbitrary: ob)
  case Nil
  then show ?case by simp
next
  case (Cons dv dvs)
  show ?case
  proof (cases "\<exists>b. dv = Some (JObj b)")
    case True
    then obtain b where b: "dv = Some (JObj b)" by blast
    with Cons.prems have wfb: "wf_obj b" by (simp add: overlay_val_def)
    have step: "defu_field ''ogImage'' (Some (JObj ob)) dv = Some (JObj (defu_pair ob b))"
      by (simp add: defu_field_def b)
    have "map_of (defu_pair ob b) k = Some v"
      using Cons.prems(1,2) assms(1-3) by (simp add: map_of_defu_pair defu_field_scalar)
    with Cons.IH [of "defu_pair ob b"] Cons.prems wfb show ?thesis
      by (simp add: step wf_defu_pair)
  next
    case False
    then have step: "defu_field ''ogImage'' (Some (JObj ob)) dv = Some (JObj ob)"
      by (auto simp: defu_field_def split: option.splits jsval.splits)
    with Cons.IH [of ob] Cons.prems show ?thesis by simp
  qed
qed

lemma overlay_most_specific_scalar:
  assumes "\<forall>r \<in> set ms. wf_rule r" and "ms \<noteq> []"
    and "get (last ms) ''ogImage'' = JObj ob" and "map_of ob k = Some v"
    and "scalar v" "k \<noteq> ''__proto__''" "k \<noteq> ''constructor''"
  shows "map_of (own_props (get (route_rules ms) ''ogImage'')) k = Some v"
proof -
  from assms(1) have wf: "\<forall>r \<in> set ms. wf_obj r"
    by (simp add: wf_rule_def)
  from assms(3) have m: "map_of (last ms) ''ogImage'' = Some (JObj ob)"
    by (auto simp: get_def split: option.splits)
  from assms(1,2) have "wf_rule (last ms)" by simp
  with assms(3) have wfo: "wf_obj ob" by (simp add: wf_rule_def)
  from assms(1,2) have "\<forall>r \<in> set (butlast ms). wf_rule r"
    by (auto dest: in_set_butlastD)
  then have rest: "\<forall>dv \<in> set (map (\<lambda>r. map_of r ''ogImage'') (rev (butlast ms))).
                     wf_obj (overlay_val dv)"
    by (simp add: wf_rule_def own_props_get)
  from overlay_keeps_scalar [OF assms(5-7) wfo assms(4) rest]
  obtain ob' where "foldl (defu_field ''ogImage'') (Some (JObj ob))
                      (map (\<lambda>r. map_of r ''ogImage'') (rev (butlast ms))) = Some (JObj ob')"
      and "map_of ob' k = Some v"
    by blast
  then show ?thesis
    by (simp add: get_def map_of_route_rules [OF wf] rev_last [OF assms(2)] m defu_field_def)
qed

lemma overlay_two:
  assumes "wf_rule r1" "wf_rule r2"
    and "get r1 ''ogImage'' = JObj o1" and "get r2 ''ogImage'' = JObj o2"
  shows "map_of (own_props (get (route_rules [r1, r2]) ''ogImage'')) k =
           defu_field k (map_of o2 k) (map_of o1 k)"
proof -
  from assms have wf: "\<forall>r \<in> set [r1, r2]. wf_obj r" and wf2: "wf_obj o2"
    by (simp_all add: wf_rule_def)
  from assms(3,4) have m: "map_of r1 ''ogImage'' = Some (JObj o1)"
      "map_of r2 ''ogImage'' = Some (JObj o2)"
    by (auto simp: get_def split: option.splits)
  have "map_of (route_rules [r1, r2]) ''ogImage'' = Some (JObj (defu_pair o2 o1))"
    by (simp add: map_of_route_rules [OF wf] m defu_field_def)
  then show ?thesis
    by (simp add: get_def map_of_defu_pair [OF wf2])
qed

lemma get_make_entry:
  assumes "wf_obj (own_props e)" and "wf_obj (own_props (get rules ''ogImage''))"
  shows "map_of (make_entry route e rules) k =
           (case map_of (own_props (get rules ''ogImage'')) k of
              Some v \<Rightarrow> Some v
            | None \<Rightarrow> (case map_of (own_props e) k of
                 Some v \<Rightarrow> Some v
               | None \<Rightarrow> if k = ''route'' then Some (JStr route)
                          else if k = ''path'' then Some (JStr (entry_path e route))
                          else None))"
  using assms by (auto simp: make_entry_def map_of_spread split: option.splits)

lemma wf_make_entry: "wf_obj (make_entry route e rules)"
proof -
  have "wf_obj [(''route'', JStr route), (''path'', JStr (entry_path e route))]"
    by (simp add: wf_obj_def)
  then show ?thesis
    by (simp add: make_entry_def wf_spread)
qed

lemma get_screenshot_options:
  assumes "wf_obj entry"
  shows "get (screenshot_options d entry host) k =
           (if k = ''host'' then JStr host
            else case map_of entry k of Some v \<Rightarrow> v | None \<Rightarrow> get d k)"
  using assms by (simp add: screenshot_options_def get_spread wf_obj_def)
section \<open>Routes that a rule disables\<close>




section \<open>Collection\<close>

lemma prerender_generate_cases:
  "prerender_generate extractOptions matchAll generate route contents w = w
   \<or> (\<exists>entry. prerender_generate extractOptions matchAll generate route contents w
                  = w\<lparr>screenshotQueue := screenshotQueue w @ [entry]\<rparr>
              \<and> get entry ''provider'' = JStr ''browser''
              \<and> (generate \<or> truthy (get entry ''static'')))"
  by (auto simp: prerender_generate_def eligible_def split: option.splits)

lemma collect_only_eligible:
  "entry \<in> set (screenshotQueue (collect extractOptions matchAll generate pages w)) \<Longrightarrow>
   entry \<in> set (screenshotQueue w)
   \<or> (get entry ''provider'' = JStr ''browser'' \<and> (generate \<or> truthy (get entry ''static'')))"
proof (induction pages arbitrary: w)
  case Nil
  then show ?case by (simp add: collect_def)
next
  case (Cons page pages)
  obtain route contents where page: "page = (route, contents)" by (cases page)
  let ?w = "prerender_generate extractOptions matchAll generate route contents w"
  from Cons.prems have "entry \<in> set (screenshotQueue (collect extractOptions matchAll generate pages ?w))"
    by (simp add: collect_def page)
  then have "entry \<in> set (screenshotQueue ?w)
      \<or> (get entry ''provider'' = JStr ''browser'' \<and> (generate \<or> truthy (get entry ''static'')))"
    by (rule Cons.IH)
  with prerender_generate_cases [of extractOptions matchAll generate route contents w]
  show ?case by auto
qed

text \<open>
  C6: for a page that yields an entry (no dot in the route, contents with an options
  payload, no disabling rule), the hook appends the entry to the queue if and only if the
  entry's provider is \<open>'browser'\<close> and the build is a full static export or the entry is
  marked static. Whatever the page, the hook either changes nothing or appends one entry
  that meets this condition; so after the hook has run for all pages of a build, every entry
  of the queue that was not there before meets it.
\<close>

theorem enqueued_iff_eligible:
  "(CHR ''.'' \<notin> set route \<and> html \<noteq> [] \<and> truthy (extractOptions html)
      \<and> get (route_rules (matchAll route)) ''ogImage'' \<noteq> JBool False
    \<longrightarrow> (screenshotQueue (prerender_generate extractOptions matchAll generate route (Some html) w)
           = screenshotQueue w @ [make_entry route (extractOptions html) (route_rules (matchAll route))])
        = (get (make_entry route (extractOptions html) (route_rules (matchAll route))) ''provider''
             = JStr ''browser''
           \<and> (generate
              \<or> truthy (get (make_entry route (extractOptions html) (route_rules (matchAll route)))
                          ''static''))))
   \<and> (prerender_generate extractOptions matchAll generate route contents w = w
      \<or> (\<exists>entry. prerender_generate extractOptions matchAll generate route contents w
                    = w\<lparr>screenshotQueue := screenshotQueue w @ [entry]\<rparr>
                \<and> get entry ''provider'' = JStr ''browser''
                \<and> (generate \<or> truthy (get entry ''static''))))
   \<and> (\<forall>entry \<in> set (screenshotQueue (collect extractOptions matchAll generate pages w)).
         entry \<in> set (screenshotQueue w)
         \<or> (get entry ''provider'' = JStr ''browser''
            \<and> (generate \<or> truthy (get entry ''static''))))"
proof (intro conjI ballI)
  show "CHR ''.'' \<notin> set route \<and> html \<noteq> [] \<and> truthy (extractOptions html)
      \<and> get (route_rules (matchAll route)) ''ogImage'' \<noteq> JBool False
    \<longrightarrow> (screenshotQueue (prerender_generate extractOptions matchAll generate route (Some html) w)
           = screenshotQueue w @ [make_entry route (extractOptions html) (route_rules (matchAll route))])
        = (get (make_entry route (extractOptions html) (route_rules (matchAll route))) ''provider''
             = JStr ''browser''
           \<and> (generate
              \<or> truthy (get (make_entry route (extractOptions html) (route_rules (matchAll route)))
                          ''static'')))"
    by (auto simp: prerender_generate_def eligible_def)
next
  show "prerender_generate extractOptions matchAll generate route contents w = w
      \<or> (\<exists>entry. prerender_generate extractOptions matchAll generate route contents w
                    = w\<lparr>screenshotQueue := screenshotQueue w @ [entry]\<rparr>
                \<and> get entry ''provider'' = JStr ''browser''
                \<and> (generate \<or> truthy (get entry ''static'')))"
    by (rule prerender_generate_cases)
next
  fix entry
  assume "entry \<in> set (screenshotQueue (collect extractOptions matchAll generate pages w))"
  then show "entry \<in> set (screenshotQueue w)
         \<or> (get entry ''provider'' = JStr ''browser''
            \<and> (generate \<or> truthy (get entry ''static'')))"
    by (rule collect_only_eligible)
qed

theorem enqueued_iff_eligible_witness:
  "CHR ''.'' \<notin> set ''/blog/post-1'' \<and> ''<html></html>'' \<noteq> [] \<and> truthy page_options
   \<and> get (route_rules blog_rules) ''ogImage'' \<noteq> JBool False
   \<and> get (make_entry ''/blog/post-1'' page_options (route_rules blog_rules)) ''provider''
       = JStr ''browser''
   \<and> truthy (get (make_entry ''/blog/post-1'' page_options (route_rules blog_rules)) ''static'')
   \<and> screenshotQueue (prerender_generate (\<lambda>html. page_options) (\<lambda>route. blog_rules) False
        ''/blog/post-1'' (Some ''<html></html>'') empty_world)
       = [make_entry ''/blog/post-1'' page_options (route_rules blog_rules)]
   \<and> screenshotQueue (collect (\<lambda>html. if html = ''<a>'' then static_options else page_options)
        (\<lambda>route. blog_rules) False
        [(''/about'', Some ''<a>''), (''/blog/post-1'', Some ''<b>''), (''/feed.xml'', Some ''<b>'')]
        empty_world)
       = [make_entry ''/blog/post-1'' page_options (route_rules blog_rules)]
   \<and> list_all (\<lambda>entry. get entry ''provider'' = JStr ''browser'')
        (screenshotQueue (collect (\<lambda>html. if html = ''<a>'' then static_options else page_options)
           (\<lambda>route. blog_rules) False
           [(''/about'', Some ''<a>''), (''/blog/post-1'', Some ''<b>''), (''/feed.xml'', Some ''<b>'')]
           empty_world))"
proof -
  have rules: "get (route_rules blog_rules) ''ogImage'' = JObj [(''width'', JNum 800), (''height'', JNum 500)]"
    by (simp add: route_rules_def blog_rules_def defu_def get_def)
  have entry: "make_entry ''/blog/post-1'' page_options (route_rules blog_rules)
      = [(''route'', JStr ''/blog/post-1''), (''path'', JStr ''/blog/post-1''),
         (''provider'', JStr ''browser''), (''static'', JBool True), (''width'', JNum 800),
         (''height'', JNum 500)]"
    unfolding make_entry_def rules
    by (simp add: page_options_def entry_path_def spread_def get_def)
  have about: "make_entry ''/about'' static_options (route_rules blog_rules)
      = [(''route'', JStr ''/about''), (''path'', JStr ''/about''),
         (''provider'', JStr ''satori''), (''static'', JBool True), (''width'', JNum 800),
         (''height'', JNum 500)]"
    unfolding make_entry_def rules
    by (simp add: static_options_def entry_path_def spread_def get_def)
  have tr: "truthy static_options" "truthy page_options"
    by (simp_all add: static_options_def page_options_def)
  have q: "screenshotQueue (collect (\<lambda>html. if html = ''<a>'' then static_options else page_options)
        (\<lambda>route. blog_rules) False
        [(''/about'', Some ''<a>''), (''/blog/post-1'', Some ''<b>''), (''/feed.xml'', Some ''<b>'')]
        empty_world)
       = [make_entry ''/blog/post-1'' page_options (route_rules blog_rules)]"
    unfolding collect_def
    by (simp add: prerender_generate_def rules eligible_def entry about tr)
       (simp add: get_def empty_world_def)
  have e: "screenshotQueue empty_world = []"
    by (simp add: empty_world_def)
  note t = enqueued_iff_eligible [where route = "''/blog/post-1''" and html = "''<html></html>''"
        and extractOptions = "\<lambda>html. page_options" and matchAll = "\<lambda>route. blog_rules"
        and generate = False and w = empty_world]
  note c = enqueued_iff_eligible [where extractOptions = "\<lambda>html. if html = ''<a>'' then static_options else page_options"
        and matchAll = "\<lambda>route. blog_rules" and generate = False and w = empty_world
        and pages = "[(''/about'', Some ''<a>''), (''/blog/post-1'', Some ''<b>''), (''/feed.xml'', Some ''<b>'')]",
        THEN conjunct2, THEN conjunct2]
  have l: "list_all (\<lambda>entry. get entry ''provider'' = JStr ''browser'')
        (screenshotQueue (collect (\<lambda>html. if html = ''<a>'' then static_options else page_options)
           (\<lambda>route. blog_rules) False
           [(''/about'', Some ''<a>''), (''/blog/post-1'', Some ''<b>''), (''/feed.xml'', Some ''<b>'')]
           empty_world))"
    using c by (auto simp: list_all_iff e)
  have first: "screenshotQueue (prerender_generate (\<lambda>html. page_options) (\<lambda>route. blog_rules) False
        ''/blog/post-1'' (Some ''<html></html>'') empty_world)
       = [make_entry ''/blog/post-1'' page_options (route_rules blog_rules)]"
    using t unfolding entry rules
    by (simp add: get_def page_options_def empty_world_def)
  show ?thesis
    using first q l unfolding entry rules
    by (simp add: get_def page_options_def)
qed
text \<open>
  C7, as the specification states it, taken at an island route: the \<open>prerender:generate\<close>
  hook tests the route for a dot only, and enqueues the island route.
\<close>

theorem island_route_enqueued_counterexample:
  "prefix ''/__nuxt_island/'' ''/__nuxt_island/OgImageBasic''
   \<and> prerender_generate (\<lambda>html. page_options) (\<lambda>route. []) True ''/__nuxt_island/OgImageBasic''
        (Some ''<html></html>'') empty_world
      = empty_world\<lparr>screenshotQueue :=
          [[(''route'', JStr ''/__nuxt_island/OgImageBasic''),
            (''path'', JStr ''/__nuxt_island/OgImageBasic''),
            (''provider'', JStr ''browser''), (''static'', JBool True), (''width'', JNum 600)]]\<rparr>"
  by (simp add: prerender_generate_def page_options_def route_rules_def defu_def get_def
        eligible_def make_entry_def spread_def entry_path_def empty_world_def)

text \<open>
  C7, as the code has it: for a route with a dot the \<open>prerender:generate\<close> hook returns at
  once, and for a url with a dot or an island url the plugin's \<open>render:html\<close> hook does:
  whatever the markup holds, nothing is extracted, the cache and the queue stay as they are
  and no header is added.
\<close>

theorem dotted_routes_and_islands_skipped:
  "(CHR ''.'' \<in> set route
      \<longrightarrow> prerender_generate extractOptions matchAll generate route contents w = w)
   \<and> (CHR ''.'' \<in> set url \<or> prefix ''/__nuxt_island/'' url
      \<longrightarrow> render_html extractOptions join prerender forcePrerender now url head (headers, w)
            = (headers, w))"
  by (simp add: prerender_generate_def render_html_def)

theorem dotted_routes_and_islands_skipped_witness:
  "CHR ''.'' \<in> set ''/sitemap.xml'' \<and> prefix ''/__nuxt_island/'' ''/__nuxt_island/OgImageBasic''
   \<and> prerender_generate (\<lambda>html. page_options) (\<lambda>route. []) True ''/sitemap.xml''
        (Some ''<html></html>'') empty_world = empty_world
   \<and> render_html (\<lambda>html. page_options) concat True True 1000 ''/sitemap.xml'' [''<head>'']
        ([], empty_world) = ([], empty_world)
   \<and> render_html (\<lambda>html. page_options) concat True True 1000 ''/__nuxt_island/OgImageBasic''
        [''<head>''] ([], empty_world) = ([], empty_world)
   \<and> screenshotQueue (prerender_generate (\<lambda>html. page_options) (\<lambda>route. []) True ''/sitemap''
        (Some ''<html></html>'') empty_world) \<noteq> []
   \<and> optionCacheStorage (snd (render_html (\<lambda>html. page_options) concat True True 1000
        ''/sitemap'' [''<head>''] ([], empty_world))) ''/sitemap'' \<noteq> None"
proof -
  have d: "CHR ''.'' \<in> set ''/sitemap.xml''" by simp
  have i: "prefix ''/__nuxt_island/'' ''/__nuxt_island/OgImageBasic''" by simp
  have q: "screenshotQueue (prerender_generate (\<lambda>html. page_options) (\<lambda>route. []) True ''/sitemap''
        (Some ''<html></html>'') empty_world) \<noteq> []"
    by (simp add: prerender_generate_def page_options_def route_rules_def defu_def get_def
          eligible_def make_entry_def spread_def entry_path_def)
  have c: "optionCacheStorage (snd (render_html (\<lambda>html. page_options) concat True True 1000
        ''/sitemap'' [''<head>''] ([], empty_world))) ''/sitemap'' \<noteq> None"
    by (simp add: render_html_def page_options_def)
  show ?thesis
    using d i q c
      dotted_routes_and_islands_skipped [where route = "''/sitemap.xml''"
        and url = "''/sitemap.xml''" and extractOptions = "\<lambda>html. page_options"
        and matchAll = "\<lambda>route. []" and generate = True and contents = "Some ''<html></html>''"
        and w = empty_world and join = concat and prerender = True and forcePrerender = True
        and now = 1000 and head = "[''<head>'']" and headers = "[]"]
      dotted_routes_and_islands_skipped [where route = "''/sitemap.xml''"
        and url = "''/__nuxt_island/OgImageBasic''" and extractOptions = "\<lambda>html. page_options"
        and w = empty_world and join = concat and prerender = True and forcePrerender = True
        and now = 1000 and head = "[''<head>'']" and headers = "[]"]
    by simp
qed

section \<open>The prerender plugin\<close>

text \<open>
  C5: when the plugin's hook writes the cache (a prerendered full page with an options
  payload), the entry it stores under the url holds the extracted options and expires one
  hour (3600000 ms) after the write if the options are marked static and 5000 ms after it
  otherwise; so of two entries written at the same time, the static one expires later.
\<close>

theorem cache_expiry_ttl:
  assumes "prerender" and "CHR ''.'' \<notin> set url" and "\<not> prefix ''/__nuxt_island/'' url"
    and "truthy (extract (join_lines head))"
  shows "optionCacheStorage
           (snd (render_html extract join prerender forcePrerender now url head (headers, w)))
         = (optionCacheStorage w)
             (url \<mapsto> \<lparr>cached_value = extract (join_lines head),
                      expiresAt =
                        (if truthy (get (own_props (extract (join_lines head))) ''static'')
                         then now + 3600000 else now + 5000)\<rparr>)
       \<and> (truthy (extract' (join_lines head))
            \<and> truthy (get (own_props (extract (join_lines head))) ''static'')
            \<and> \<not> truthy (get (own_props (extract' (join_lines head))) ''static'')
          \<longrightarrow> expiresAt (the (optionCacheStorage
                 (snd (render_html extract' join prerender forcePrerender now url head (headers, w)))
                 url))
              < expiresAt (the (optionCacheStorage
                 (snd (render_html extract join prerender forcePrerender now url head (headers, w)))
                 url)))"
  using assms by (simp add: render_html_def)

theorem cache_expiry_ttl_witness:
  "CHR ''.'' \<notin> set ''/about'' \<and> \<not> prefix ''/__nuxt_island/'' ''/about''
   \<and> truthy static_options \<and> truthy dynamic_options
   \<and> truthy (get (own_props static_options) ''static'')
   \<and> \<not> truthy (get (own_props dynamic_options) ''static'')
   \<and> optionCacheStorage
         (snd (render_html (\<lambda>html. static_options) concat True False 1000 ''/about'' [''<head>'']
                ([], empty_world))) ''/about''
       = Some \<lparr>cached_value = static_options, expiresAt = 3601000\<rparr>
   \<and> optionCacheStorage
         (snd (render_html (\<lambda>html. dynamic_options) concat True False 1000 ''/about'' [''<head>'']
                ([], empty_world))) ''/about''
       = Some \<lparr>cached_value = dynamic_options, expiresAt = 6000\<rparr>
   \<and> expiresAt (the (optionCacheStorage
         (snd (render_html (\<lambda>html. dynamic_options) concat True False 1000 ''/about'' [''<head>'']
                ([], empty_world))) ''/about''))
       < expiresAt (the (optionCacheStorage
         (snd (render_html (\<lambda>html. static_options) concat True False 1000 ''/about'' [''<head>'']
                ([], empty_world))) ''/about''))"
proof -
  have u: "CHR ''.'' \<notin> set ''/about''" "\<not> prefix ''/__nuxt_island/'' ''/about''"
    by simp_all
  have s: "truthy ((\<lambda>html. static_options) (join_lines [''<head>'']))"
    and d: "truthy ((\<lambda>html. dynamic_options) (join_lines [''<head>'']))"
    by (simp_all add: static_options_def dynamic_options_def)
  have f: "truthy (get (own_props static_options) ''static'')"
      "\<not> truthy (get (own_props dynamic_options) ''static'')"
    by (simp_all add: static_options_def dynamic_options_def get_def)
  show ?thesis
    using u s d f
      cache_expiry_ttl [OF TrueI u s, where join = concat and forcePrerender = False
        and now = 1000 and headers = "[]" and w = empty_world and extract' = "\<lambda>html. dynamic_options"]
      cache_expiry_ttl [OF TrueI u d, where join = concat and forcePrerender = False
        and now = 1000 and headers = "[]" and w = empty_world and extract' = "\<lambda>html. dynamic_options"]
    by simp
qed

text \<open>
  C10: for a prerendered full page with an options payload, the hook appends the header
  \<open>x-nitro-prerender\<close> with the url joined with \<open>/__og_image__/og.png\<close> when the provider is
  \<open>'satori'\<close> and the options are static or the build forces prerendering, and leaves the
  headers alone otherwise; the screenshot queue is not touched.
\<close>

theorem satori_prerender_header:
  assumes "prerender" and "CHR ''.'' \<notin> set url" and "\<not> prefix ''/__nuxt_island/'' url"
    and "truthy (extract (join_lines head))"
  shows "fst (render_html extract join prerender forcePrerender now url head (headers, w))
         = (if get (own_props (extract (join_lines head))) ''provider'' = JStr ''satori''
               \<and> (forcePrerender
                  \<or> truthy (get (own_props (extract (join_lines head))) ''static''))
            then headers @ [(''x-nitro-prerender'', join [url, ''/__og_image__/og.png''])]
            else headers)
       \<and> screenshotQueue
           (snd (render_html extract join prerender forcePrerender now url head (headers, w)))
         = screenshotQueue w"
  using assms by (simp add: render_html_def)

theorem satori_prerender_header_witness:
  "CHR ''.'' \<notin> set ''/about'' \<and> \<not> prefix ''/__nuxt_island/'' ''/about''
   \<and> truthy static_options \<and> truthy dynamic_options \<and> truthy page_options
   \<and> fst (render_html (\<lambda>html. static_options) concat True False 1000 ''/about'' [''<head>'']
            ([], empty_world))
       = [(''x-nitro-prerender'', ''/about/__og_image__/og.png'')]
   \<and> fst (render_html (\<lambda>html. dynamic_options) concat True True 1000 ''/about'' [''<head>'']
            ([], empty_world))
       = [(''x-nitro-prerender'', ''/about/__og_image__/og.png'')]
   \<and> fst (render_html (\<lambda>html. dynamic_options) concat True False 1000 ''/about'' [''<head>'']
            ([], empty_world))
       = []
   \<and> fst (render_html (\<lambda>html. page_options) concat True True 1000 ''/about'' [''<head>'']
            ([], empty_world))
       = []"
proof -
  have u: "CHR ''.'' \<notin> set ''/about''" "\<not> prefix ''/__nuxt_island/'' ''/about''"
    by simp_all
  have s: "truthy ((\<lambda>html. static_options) (join_lines [''<head>'']))"
    and d: "truthy ((\<lambda>html. dynamic_options) (join_lines [''<head>'']))"
    and p: "truthy ((\<lambda>html. page_options) (join_lines [''<head>'']))"
    by (simp_all add: static_options_def dynamic_options_def page_options_def)
  have f: "get (own_props static_options) ''provider'' = JStr ''satori''"
      "truthy (get (own_props static_options) ''static'')"
      "get (own_props dynamic_options) ''provider'' = JStr ''satori''"
      "\<not> truthy (get (own_props dynamic_options) ''static'')"
      "get (own_props page_options) ''provider'' = JStr ''browser''"
    by (simp_all add: static_options_def dynamic_options_def page_options_def get_def)
  show ?thesis
    using u s d p f
      satori_prerender_header [OF TrueI u s, where join = concat and forcePrerender = False
        and now = 1000 and headers = "[]" and w = empty_world]
      satori_prerender_header [OF TrueI u d, where join = concat and forcePrerender = True
        and now = 1000 and headers = "[]" and w = empty_world]
      satori_prerender_header [OF TrueI u d, where join = concat and forcePrerender = False
        and now = 1000 and headers = "[]" and w = empty_world]
      satori_prerender_header [OF TrueI u p, where join = concat and forcePrerender = True
        and now = 1000 and headers = "[]" and w = empty_world]
    by simp
qed

section \<open>Fonts\<close>

text \<open>
  C8: \<open>loadFont\<close> returns a font that carries data as it is; otherwise, when the storage has
  the font's key, it returns the font with the decoded stored string; otherwise it fetches
  the font's path against the origin when a path is given and the endpoint
  \<open>/__og-image__/font/<name>/<weight>.ttf\<close> when not, and returns the font with the fetched
  bytes or the error of the fetch. In every case the storage is left as it was.
\<close>

theorem loadFont_order:
  "snd (loadFont decode fetch_bytes origin fnt assets) = assets
   \<and> (data fnt \<noteq> None \<longrightarrow> fst (loadFont decode fetch_bytes origin fnt assets) = Inr fnt)
   \<and> (data fnt = None \<and> key fnt = Some k \<and> k \<noteq> [] \<and> assets k = Some fontData
      \<longrightarrow> fst (loadFont decode fetch_bytes origin fnt assets)
            = Inr (fnt\<lparr>data := Some (decode fontData)\<rparr>))
   \<and> (data fnt = None \<and> (key fnt = None \<or> key fnt = Some [] \<or> assets (the (key fnt)) = None)
      \<longrightarrow> fst (loadFont decode fetch_bytes origin fnt assets)
            = (case fetch_bytes
                      (if path fnt \<noteq> None \<and> path fnt \<noteq> Some []
                       then \<lparr>req_url = the (path fnt), req_baseURL = Some origin\<rparr>
                       else \<lparr>req_url = ''/__og-image__/font/'' @ name fnt @ ''/''
                                        @ show_nat (weight fnt) @ ''.ttf'',
                             req_baseURL = None\<rparr>) of
                 Inl err \<Rightarrow> Inl err
               | Inr d \<Rightarrow> Inr (fnt\<lparr>data := Some d\<rparr>)))"
proof (intro conjI impI)
  show "snd (loadFont decode fetch_bytes origin fnt assets) = assets"
    by (simp add: loadFont_def split: option.split sum.split)
next
  assume "data fnt \<noteq> None"
  then show "fst (loadFont decode fetch_bytes origin fnt assets) = Inr fnt"
    by (simp add: loadFont_def)
next
  assume "data fnt = None \<and> key fnt = Some k \<and> k \<noteq> [] \<and> assets k = Some fontData"
  then show "fst (loadFont decode fetch_bytes origin fnt assets)
            = Inr (fnt\<lparr>data := Some (decode fontData)\<rparr>)"
    by (simp add: loadFont_def)
next
  assume a: "data fnt = None
    \<and> (key fnt = None \<or> key fnt = Some [] \<or> assets (the (key fnt)) = None)"
  then have miss: "(case key fnt of None \<Rightarrow> None
                    | Some k \<Rightarrow> if k = [] then None else assets k) = None"
    by (cases "key fnt") auto
  show "fst (loadFont decode fetch_bytes origin fnt assets)
            = (case fetch_bytes
                      (if path fnt \<noteq> None \<and> path fnt \<noteq> Some []
                       then \<lparr>req_url = the (path fnt), req_baseURL = Some origin\<rparr>
                       else \<lparr>req_url = ''/__og-image__/font/'' @ name fnt @ ''/''
                                        @ show_nat (weight fnt) @ ''.ttf'',
                             req_baseURL = None\<rparr>) of
                 Inl err \<Rightarrow> Inl err
               | Inr d \<Rightarrow> Inr (fnt\<lparr>data := Some d\<rparr>))"
  proof (cases "path fnt")
    case None
    with a miss show ?thesis
      by (simp add: loadFont_def split: sum.split)
  next
    case (Some p)
    with a miss show ?thesis
      by (cases "p = []") (simp_all add: loadFont_def split: sum.split)
  qed
qed

theorem loadFont_order_witness:
  "data (inter_font\<lparr>data := Some [0, 1]\<rparr>) \<noteq> None
   \<and> loadFont (\<lambda>s. [7]) (\<lambda>r. Inr [9]) ''http://localhost:3000''
        (inter_font\<lparr>data := Some [0, 1]\<rparr>) [''inter-400'' \<mapsto> ''AAE='']
       = (Inr (inter_font\<lparr>data := Some [0, 1]\<rparr>), [''inter-400'' \<mapsto> ''AAE=''])
   \<and> loadFont (\<lambda>s. [7]) (\<lambda>r. Inr [9]) ''http://localhost:3000'' inter_font
        [''inter-400'' \<mapsto> ''AAE='']
       = (Inr (inter_font\<lparr>data := Some [7]\<rparr>), [''inter-400'' \<mapsto> ''AAE=''])
   \<and> loadFont (\<lambda>s. [7])
        (\<lambda>r. if r = \<lparr>req_url = ''/fonts/inter.ttf'', req_baseURL = Some ''http://localhost:3000''\<rparr>
              then Inr [9] else Inl (Failure ''404''))
        ''http://localhost:3000'' (inter_font\<lparr>path := Some ''/fonts/inter.ttf''\<rparr>) Map.empty
       = (Inr (inter_font\<lparr>path := Some ''/fonts/inter.ttf'', data := Some [9]\<rparr>), Map.empty)
   \<and> loadFont (\<lambda>s. [7])
        (\<lambda>r. if r = \<lparr>req_url = ''/__og-image__/font/Inter/400.ttf'', req_baseURL = None\<rparr>
              then Inr [9] else Inl (Failure ''404''))
        ''http://localhost:3000'' inter_font Map.empty
       = (Inr (inter_font\<lparr>data := Some [9]\<rparr>), Map.empty)
   \<and> loadFont (\<lambda>s. [7]) (\<lambda>r. Inl (Failure ''404'')) ''http://localhost:3000'' inter_font Map.empty
       = (Inl (Failure ''404''), Map.empty)"
proof -
  have n: "show_nat 400 = ''400''"
    by (simp add: show_nat.simps digit_def)
  have 1: "data (inter_font\<lparr>data := Some [0, 1]\<rparr>) \<noteq> None"
    by simp
  have 2: "data inter_font = None \<and> key inter_font = Some ''inter-400'' \<and> ''inter-400'' \<noteq> []
      \<and> [''inter-400'' \<mapsto> ''AAE=''] ''inter-400'' = Some ''AAE=''"
    by (simp add: inter_font_def)
  have 3: "data (inter_font\<lparr>path := Some ''/fonts/inter.ttf''\<rparr>) = None
      \<and> (key (inter_font\<lparr>path := Some ''/fonts/inter.ttf''\<rparr>) = None
         \<or> key (inter_font\<lparr>path := Some ''/fonts/inter.ttf''\<rparr>) = Some []
         \<or> Map.empty (the (key (inter_font\<lparr>path := Some ''/fonts/inter.ttf''\<rparr>))) = None)"
    by (simp add: inter_font_def)
  have 4: "data inter_font = None
      \<and> (key inter_font = None \<or> key inter_font = Some []
         \<or> Map.empty (the (key inter_font)) = None)"
    by (simp add: inter_font_def)
  have p: "path inter_font = None" "name inter_font = ''Inter''" "weight inter_font = 400"
    by (simp_all add: inter_font_def)
  show ?thesis
    using 1 2 3 4
      loadFont_order [where decode = "\<lambda>s. [7]" and fetch_bytes = "\<lambda>r. Inr [9]"
        and origin = "''http://localhost:3000''" and fnt = "inter_font\<lparr>data := Some [0, 1]\<rparr>"
        and assets = "[''inter-400'' \<mapsto> ''AAE='']"]
      loadFont_order [where decode = "\<lambda>s. [7]" and fetch_bytes = "\<lambda>r. Inr [9]"
        and origin = "''http://localhost:3000''" and fnt = inter_font
        and assets = "[''inter-400'' \<mapsto> ''AAE='']" and k = "''inter-400''" and fontData = "''AAE=''"]
      loadFont_order [where decode = "\<lambda>s. [7]"
        and fetch_bytes = "\<lambda>r. if r = \<lparr>req_url = ''/fonts/inter.ttf'', req_baseURL = Some ''http://localhost:3000''\<rparr>
              then Inr [9] else Inl (Failure ''404'')"
        and origin = "''http://localhost:3000''" and fnt = "inter_font\<lparr>path := Some ''/fonts/inter.ttf''\<rparr>"
        and assets = Map.empty]
      loadFont_order [where decode = "\<lambda>s. [7]"
        and fetch_bytes = "\<lambda>r. if r = \<lparr>req_url = ''/__og-image__/font/Inter/400.ttf'', req_baseURL = None\<rparr>
              then Inr [9] else Inl (Failure ''404'')"
        and origin = "''http://localhost:3000''" and fnt = inter_font and assets = Map.empty]
      loadFont_order [where decode = "\<lambda>s. [7]" and fetch_bytes = "\<lambda>r. Inl (Failure ''404'')"
        and origin = "''http://localhost:3000''" and fnt = inter_font and assets = Map.empty]
    by (simp add: prod_eq_iff p n)
qed

section \<open>The drain\<close>


lemma capture_job_events:
  "events (capture_job env host n k entry w) =
     events w @ CallScreenshot (screenshot_options (defaults env) entry host)
       # (case screenshot env (screenshot_options (defaults env) entry host) of
            Inl err \<Rightarrow> [ConsoleError err]
          | Inr imgBuffer \<Rightarrow>
              (case writeFile env (filename_of env entry) imgBuffer of
                 Some err \<Rightarrow> [ConsoleError err] | None \<Rightarrow> []))
       @ [Progress (k = n - 1) (job_failed env host entry)
            (relative env (publicDir env) (filename_of env entry))
            (snd (clock env k) - fst (clock env k)) (percent env k n)]"
  by (simp add: capture_job_def job_failed_def Let_def split: sum.split option.split)

lemma capture_job_files:
  "files (capture_job env host n k entry w) =
     (case screenshot env (screenshot_options (defaults env) entry host) of
        Inl err \<Rightarrow> files w
      | Inr imgBuffer \<Rightarrow>
          (case writeFile env (filename_of env entry) imgBuffer of
             Some err \<Rightarrow> files w
           | None \<Rightarrow> (files w)(filename_of env entry \<mapsto> imgBuffer)))"
  by (simp add: capture_job_def Let_def split: sum.split option.split)


lemma capture_pass_events_extend:
  "\<exists>new. events (capture_pass env host n k queue w) = events w @ new"
proof (induction queue arbitrary: k w)
  case Nil
  then show ?case by simp
next
  case (Cons entry rest)
  from Cons [of "Suc k" "capture_job env host n k entry w"]
  show ?case by (auto simp: capture_job_events)
qed

lemma capture_pass_progress:
  "filter is_progress (events (capture_pass env host n k queue w)) =
     filter is_progress (events w) @
     map (\<lambda>(j, entry). Progress (j = n - 1) (job_failed env host entry)
            (relative env (publicDir env) (filename_of env entry))
            (snd (clock env j) - fst (clock env j)) (percent env j n))
       (enumerate k queue)"
proof (induction queue arbitrary: k w)
  case Nil
  then show ?case by simp
next
  case (Cons entry rest)
  show ?case
    by (simp add: Cons [of "Suc k"] capture_job_events split: sum.split option.split)
qed

lemma capture_pass_calls:
  "filter is_call (events (capture_pass env host n k queue w)) =
     filter is_call (events w) @
     map (\<lambda>entry. CallScreenshot (screenshot_options (defaults env) entry host)) queue"
proof (induction queue arbitrary: k w)
  case Nil
  then show ?case by simp
next
  case (Cons entry rest)
  show ?case
    by (simp add: Cons [of "Suc k"] capture_job_events split: sum.split option.split)
qed

lemma capture_pass_keeps_files:
  "files w p \<noteq> None \<Longrightarrow> files (capture_pass env host n k queue w) p \<noteq> None"
proof (induction queue arbitrary: k w)
  case Nil
  then show ?case by simp
next
  case (Cons entry rest)
  from Cons.prems have "files (capture_job env host n k entry w) p \<noteq> None"
    by (simp add: capture_job_files split: sum.split option.split)
  then show ?case by (simp add: Cons.IH)
qed

lemma capture_pass_writes:
  "entry \<in> set queue \<Longrightarrow> \<not> job_failed env host entry \<Longrightarrow>
   files (capture_pass env host n k queue w) (filename_of env entry) \<noteq> None"
proof (induction queue arbitrary: k w)
  case Nil
  then show ?case by simp
next
  case (Cons e rest)
  show ?case
  proof (cases "entry = e")
    case True
    with Cons.prems(2) have "files (capture_job env host n k e w) (filename_of env entry) \<noteq> None"
      by (auto simp: capture_job_files job_failed_def split: sum.splits option.splits)
    then show ?thesis by (simp add: capture_pass_keeps_files)
  next
    case False
    with Cons.prems have "entry \<in> set rest" by simp
    with Cons.IH Cons.prems(2) show ?thesis by simp
  qed
qed

lemma capture_pass_untouched:
  "\<forall>entry \<in> set queue. job_failed env host entry \<or> filename_of env entry \<noteq> p \<Longrightarrow>
   files (capture_pass env host n k queue w) p = files w p"
proof (induction queue arbitrary: k w)
  case Nil
  then show ?case by simp
next
  case (Cons e rest)
  from Cons.prems have "files (capture_job env host n k e w) p = files w p"
    by (auto simp: capture_job_files job_failed_def split: sum.splits option.splits)
  with Cons show ?case by simp
qed

lemma test_files:
  "filename_of test_env job_a = ''dist/a/__og_image__/og.png''"
  "filename_of test_env job_b = ''dist/b/__og_image__/og.png''"
  by (simp_all add: filename_of_def route_of_def get_def test_env_def job_a_def job_b_def
        simple_joinURL_def)

lemma test_jobs:
  "job_failed test_env ''http://localhost:3000'' job_a"
  "\<not> job_failed test_env ''http://localhost:3000'' job_b"
  by (simp_all add: job_failed_def screenshot_options_def spread_def get_def test_env_def
        job_a_def job_b_def module_defaults_def)


lemma drain_body_events:
  "\<exists>rest. events (fst (drain_body env extract matchAll host w)) = events w @ CreateBrowser # rest"
proof (cases "createBrowser env")
  case (Inl err)
  then show ?thesis by (simp add: drain_body_def)
next
  case (Inr b)
  show ?thesis
  proof (cases b)
    case False
    with Inr show ?thesis by (simp add: drain_body_def)
  next
    case True
    show ?thesis
    proof (cases "completion_pass env extract matchAll host (screenshotQueue w)")
      case (Inl failed)
      with Inr True show ?thesis by (simp add: drain_body_def split: prod.split)
    next
      case (Inr queue)
      obtain new where "events (capture_pass env host (length queue) 0 queue
          (w\<lparr>browser := Some Running, screenshotQueue := queue,
             events := events w @ [CreateBrowser, InfoPrerendering (length (screenshotQueue w))]\<rparr>))
        = (events w @ [CreateBrowser, InfoPrerendering (length (screenshotQueue w))]) @ new"
        using capture_pass_events_extend [of env host "length queue" 0 queue
            "w\<lparr>browser := Some Running, screenshotQueue := queue,
             events := events w @ [CreateBrowser, InfoPrerendering (length (screenshotQueue w))]\<rparr>"]
        by auto
      with Inr True \<open>createBrowser env = Inr b\<close> show ?thesis
        by (simp add: drain_body_def)
    qed
  qed
qed

text \<open>
  C3: the capture pass always runs to its end, as \<open>capture_pass\<close> returns a state for every
  outcome of every capture and write. It prints one progress line per job, in queue order,
  with the job's elapsed time, the percentage for its index and whether this job failed;
  the capture is called once for every job, in queue order; a job whose capture and write
  succeed has its file written whatever happens to the other jobs; and a path that no
  succeeding job writes to is left as it was.
\<close>

theorem capture_pass_isolated:
  "filter is_progress (events (capture_pass env host (length queue) 0 queue w))
     = filter is_progress (events w) @
       map (\<lambda>(k, entry). Progress (k = length queue - 1) (job_failed env host entry)
              (relative env (publicDir env) (filename_of env entry))
              (snd (clock env k) - fst (clock env k)) (percent env k (length queue)))
         (enumerate 0 queue)
   \<and> filter is_call (events (capture_pass env host (length queue) 0 queue w))
     = filter is_call (events w) @
       map (\<lambda>entry. CallScreenshot (screenshot_options (defaults env) entry host)) queue
   \<and> (\<forall>entry \<in> set queue. \<not> job_failed env host entry \<longrightarrow>
         files (capture_pass env host (length queue) 0 queue w) (filename_of env entry) \<noteq> None)
   \<and> (\<forall>p. (\<forall>entry \<in> set queue. job_failed env host entry \<or> filename_of env entry \<noteq> p) \<longrightarrow>
         files (capture_pass env host (length queue) 0 queue w) p = files w p)"
  by (simp add: capture_pass_progress capture_pass_calls capture_pass_writes
        capture_pass_untouched)

theorem capture_pass_isolated_witness:
  "job_failed test_env ''http://localhost:3000'' job_a
   \<and> \<not> job_failed test_env ''http://localhost:3000'' job_b
   \<and> filter is_progress
        (events (capture_pass test_env ''http://localhost:3000'' 2 0 [job_a, job_b] empty_world))
      = [Progress False True ''a/__og_image__/og.png'' 7 50,
         Progress True False ''b/__og_image__/og.png'' 7 100]
   \<and> files (capture_pass test_env ''http://localhost:3000'' 2 0 [job_a, job_b] empty_world)
        ''dist/b/__og_image__/og.png'' \<noteq> None
   \<and> files (capture_pass test_env ''http://localhost:3000'' 2 0 [job_a, job_b] empty_world)
        ''dist/a/__og_image__/og.png'' = None"
proof -
  note t = capture_pass_isolated [where env = test_env and host = "''http://localhost:3000''"
      and queue = "[job_a, job_b]" and w = empty_world]
  have e: "events empty_world = []" "files empty_world = Map.empty"
    by (simp_all add: empty_world_def)
  have env: "relative test_env (publicDir test_env) ''dist/a/__og_image__/og.png''
               = ''a/__og_image__/og.png''"
      "relative test_env (publicDir test_env) ''dist/b/__og_image__/og.png''
               = ''b/__og_image__/og.png''"
      "clock test_env 0 = (0, 7)" "clock test_env (Suc 0) = (1000, 1007)"
      "percent test_env 0 (Suc (Suc 0)) = 50" "percent test_env (Suc 0) (Suc (Suc 0)) = 100"
    by (simp_all add: test_env_def)
  have p: "filter is_progress
        (events (capture_pass test_env ''http://localhost:3000'' 2 0 [job_a, job_b] empty_world))
      = [Progress False True ''a/__og_image__/og.png'' 7 50,
         Progress True False ''b/__og_image__/og.png'' 7 100]"
    using t [THEN conjunct1] by (simp add: e env test_files test_jobs numeral_2_eq_2)
  have b: "files (capture_pass test_env ''http://localhost:3000'' 2 0 [job_a, job_b] empty_world)
        ''dist/b/__og_image__/og.png'' \<noteq> None"
    using t [THEN conjunct2, THEN conjunct2, THEN conjunct1]
    by (simp add: test_files test_jobs numeral_2_eq_2)
  have a: "files (capture_pass test_env ''http://localhost:3000'' 2 0 [job_a, job_b] empty_world)
        ''dist/a/__og_image__/og.png'' = None"
    using t [THEN conjunct2, THEN conjunct2, THEN conjunct2, THEN spec,
             of "''dist/a/__og_image__/og.png''"]
    by (simp add: e test_files test_jobs numeral_2_eq_2)
  from p a b test_jobs show ?thesis by simp
qed


lemma catch_error_events:
  "\<exists>more. events (catch_error tried) = events (fst tried) @ more"
  by (simp add: catch_error_def split: option.split)



text \<open>
  Before the address is known the call does not get further: with a queue that is not empty
  and no chunk holding the readiness phrase, it stays at the wait, the preview server
  running.
\<close>

lemma drain_waits_for_preview:
  assumes "callHook env (screenshotQueue w) = Inr queue" and "queue \<noteq> []"
    and "read_host (stdout env) = None"
  shows "captureScreenshots env extractOptions matchAll w = Waiting (launch env queue w)"
  using assms by (simp add: captureScreenshots_def)

text \<open>The four builds, step by step.\<close>

lemma test_hosts:
  "read_host (stdout test_env) = Some (Inr ''http://localhost:3000'')"
  "read_host (stdout stuck_env) = Some (Inr ''http://localhost:3000'')"
  "read_host (stdout unparsed_env) = Some (Inl TypeError)"
  "read_host (stdout silent_env) = None"
  by (simp_all add: test_env_def stuck_env_def unparsed_env_def silent_env_def trim_def
        is_space_def)

lemma test_completion:
  "completion_pass test_env (\<lambda>html. JUndefined) (\<lambda>route. []) ''http://localhost:3000''
     [stub_c, job_b] = Inl (Failure ''ECONNREFUSED'', [stub_c, job_b])"
  "completion_pass stuck_env (\<lambda>html. JUndefined) (\<lambda>route. []) ''http://localhost:3000''
     [stub_c, job_b] = Inl (Failure ''ECONNREFUSED'', [stub_c, job_b])"
  by (simp_all add: complete_entry_def complete_stub_def stub_c_def get_def test_env_def
        stuck_env_def)

lemma test_launch:
  "launch test_env [stub_c, job_b] queued_world
     = \<lparr>screenshotQueue = [stub_c, job_b], optionCacheStorage = Map.empty, files = Map.empty,
        previewProcess = Some Running, browser = None,
        events = [InfoEnsuringChromium, SpawnInstaller, ErrorInstallFailed, SpawnPreview]\<rparr>"
  "launch stuck_env [stub_c, job_b] queued_world
     = \<lparr>screenshotQueue = [stub_c, job_b], optionCacheStorage = Map.empty, files = Map.empty,
        previewProcess = Some Running, browser = None,
        events = [InfoEnsuringChromium, SpawnInstaller, ErrorInstallFailed, SpawnPreview]\<rparr>"
  "launch silent_env [stub_c, job_b] queued_world
     = \<lparr>screenshotQueue = [stub_c, job_b], optionCacheStorage = Map.empty, files = Map.empty,
        previewProcess = Some Running, browser = None,
        events = [InfoEnsuringChromium, SpawnInstaller, ErrorInstallFailed, SpawnPreview]\<rparr>"
  "launch unparsed_env [stub_c, job_b] queued_world
     = \<lparr>screenshotQueue = [stub_c, job_b], optionCacheStorage = Map.empty, files = Map.empty,
        previewProcess = Some Running, browser = None,
        events = [InfoEnsuringChromium, SpawnInstaller, ErrorInstallFailed, SpawnPreview]\<rparr>"
  by (simp_all add: launch_def test_env_def stuck_env_def silent_env_def unparsed_env_def
        queued_world_def empty_world_def)

lemma test_hook:
  "callHook test_env (screenshotQueue queued_world) = Inr [stub_c, job_b]"
  "callHook stuck_env (screenshotQueue queued_world) = Inr [stub_c, job_b]"
  "callHook silent_env (screenshotQueue queued_world) = Inr [stub_c, job_b]"
  "callHook unparsed_env (screenshotQueue queued_world) = Inr [stub_c, job_b]"
  by (simp_all add: test_env_def stuck_env_def silent_env_def unparsed_env_def queued_world_def)

lemma test_drains:
  "captureScreenshots test_env (\<lambda>html. JUndefined) (\<lambda>route. []) queued_world
     = Returned \<lparr>screenshotQueue = [], optionCacheStorage = Map.empty, files = Map.empty,
         previewProcess = Some Stopped, browser = Some Stopped,
         events = [InfoEnsuringChromium, SpawnInstaller, ErrorInstallFailed, SpawnPreview,
                   CreateBrowser, InfoPrerendering 2, ConsoleError (Failure ''ECONNREFUSED''),
                   BrowserClose, PreviewKill]\<rparr>"
  "captureScreenshots unparsed_env (\<lambda>html. JUndefined) (\<lambda>route. []) queued_world
     = Returned \<lparr>screenshotQueue = [], optionCacheStorage = Map.empty, files = Map.empty,
         previewProcess = Some Stopped, browser = None,
         events = [InfoEnsuringChromium, SpawnInstaller, ErrorInstallFailed, SpawnPreview,
                   ConsoleError TypeError, PreviewKill]\<rparr>"
  "captureScreenshots stuck_env (\<lambda>html. JUndefined) (\<lambda>route. []) queued_world
     = Threw (Failure ''Target closed'')
        \<lparr>screenshotQueue = [stub_c, job_b], optionCacheStorage = Map.empty, files = Map.empty,
         previewProcess = Some Running, browser = Some Running,
         events = [InfoEnsuringChromium, SpawnInstaller, ErrorInstallFailed, SpawnPreview,
                   CreateBrowser, InfoPrerendering 2, ConsoleError (Failure ''ECONNREFUSED''),
                   BrowserClose]\<rparr>"
  "captureScreenshots silent_env (\<lambda>html. JUndefined) (\<lambda>route. []) queued_world
     = Waiting \<lparr>screenshotQueue = [stub_c, job_b], optionCacheStorage = Map.empty,
         files = Map.empty, previewProcess = Some Running, browser = None,
         events = [InfoEnsuringChromium, SpawnInstaller, ErrorInstallFailed, SpawnPreview]\<rparr>"
proof -
  have b: "createBrowser test_env = Inr True" "createBrowser stuck_env = Inr True"
      "closeBrowser test_env = None" "closeBrowser unparsed_env = None"
      "closeBrowser stuck_env = Some (Failure ''Target closed'')"
    by (simp_all add: test_env_def stuck_env_def unparsed_env_def)
  show "captureScreenshots test_env (\<lambda>html. JUndefined) (\<lambda>route. []) queued_world
     = Returned \<lparr>screenshotQueue = [], optionCacheStorage = Map.empty, files = Map.empty,
         previewProcess = Some Stopped, browser = Some Stopped,
         events = [InfoEnsuringChromium, SpawnInstaller, ErrorInstallFailed, SpawnPreview,
                   CreateBrowser, InfoPrerendering 2, ConsoleError (Failure ''ECONNREFUSED''),
                   BrowserClose, PreviewKill]\<rparr>"
    by (simp add: captureScreenshots_def test_hook test_hosts test_launch try_body_def
          drain_body_def b test_completion catch_error_def finally_close_def
          del: completion_pass.simps)
  show "captureScreenshots unparsed_env (\<lambda>html. JUndefined) (\<lambda>route. []) queued_world
     = Returned \<lparr>screenshotQueue = [], optionCacheStorage = Map.empty, files = Map.empty,
         previewProcess = Some Stopped, browser = None,
         events = [InfoEnsuringChromium, SpawnInstaller, ErrorInstallFailed, SpawnPreview,
                   ConsoleError TypeError, PreviewKill]\<rparr>"
    by (simp add: captureScreenshots_def test_hook test_hosts test_launch try_body_def
          b catch_error_def finally_close_def)
  show "captureScreenshots stuck_env (\<lambda>html. JUndefined) (\<lambda>route. []) queued_world
     = Threw (Failure ''Target closed'')
        \<lparr>screenshotQueue = [stub_c, job_b], optionCacheStorage = Map.empty, files = Map.empty,
         previewProcess = Some Running, browser = Some Running,
         events = [InfoEnsuringChromium, SpawnInstaller, ErrorInstallFailed, SpawnPreview,
                   CreateBrowser, InfoPrerendering 2, ConsoleError (Failure ''ECONNREFUSED''),
                   BrowserClose]\<rparr>"
    by (simp add: captureScreenshots_def test_hook test_hosts test_launch try_body_def
          drain_body_def b test_completion catch_error_def finally_close_def
          del: completion_pass.simps)
  show "captureScreenshots silent_env (\<lambda>html. JUndefined) (\<lambda>route. []) queued_world
     = Waiting \<lparr>screenshotQueue = [stub_c, job_b], optionCacheStorage = Map.empty,
         files = Map.empty, previewProcess = Some Running, browser = None,
         events = [InfoEnsuringChromium, SpawnInstaller, ErrorInstallFailed, SpawnPreview]\<rparr>"
    by (simp add: captureScreenshots_def test_hook test_hosts test_launch)
qed




text \<open>
  The steps after the launch do not read the trace: events in front of it stay in front.
  Nor do they read the installer's exit code.
\<close>

lemma prepend_fields:
  "screenshotQueue (prepend evs w) = screenshotQueue w"
  "browser (prepend evs w) = browser w"
  "previewProcess (prepend evs w) = previewProcess w"
  "files (prepend evs w) = files w"
  "optionCacheStorage (prepend evs w) = optionCacheStorage w"
  "events (prepend evs w) = evs @ events w"
  by (simp_all add: prepend_def)

lemma capture_job_prepend:
  "capture_job env host n k entry (prepend evs w) = prepend evs (capture_job env host n k entry w)"
  by (simp add: capture_job_def prepend_def Let_def split: sum.split option.split)

lemma capture_pass_prepend:
  "capture_pass env host n k queue (prepend evs w) = prepend evs (capture_pass env host n k queue w)"
  by (induction queue arbitrary: k w) (simp_all add: capture_job_prepend)

lemma drain_body_prepend:
  "drain_body env extractOptions matchAll host (prepend evs w)
     = (prepend evs (fst (drain_body env extractOptions matchAll host w)),
        snd (drain_body env extractOptions matchAll host w))"
proof (cases "createBrowser env")
  case (Inl err)
  then show ?thesis by (simp add: drain_body_def prepend_def)
next
  case (Inr b)
  show ?thesis
  proof (cases b)
    case False
    with Inr show ?thesis by (simp add: drain_body_def prepend_def)
  next
    case True
    show ?thesis
    proof (cases "completion_pass env extractOptions matchAll host (screenshotQueue w)")
      case (Inl failed)
      with Inr True show ?thesis by (simp add: drain_body_def prepend_def split: prod.split)
    next
      case (Inr q)
      let ?W = "w\<lparr>browser := Some Running, screenshotQueue := q,
          events := events w @ [CreateBrowser, InfoPrerendering (length (screenshotQueue w))]\<rparr>"
      have p: "(prepend evs w)\<lparr>browser := Some Running, screenshotQueue := q,
            events := (evs @ events w)
              @ [CreateBrowser, InfoPrerendering (length (screenshotQueue w))]\<rparr>
          = prepend evs ?W"
        by (simp add: prepend_def)
      have 1: "drain_body env extractOptions matchAll host (prepend evs w)
          = (capture_pass env host (length q) 0 q (prepend evs ?W), None)"
        unfolding drain_body_def
        using \<open>createBrowser env = Inr b\<close> True Inr
        by (simp only: prepend_fields sum.case bool.case p)
      have 2: "drain_body env extractOptions matchAll host w
          = (capture_pass env host (length q) 0 q ?W, None)"
        using \<open>createBrowser env = Inr b\<close> True Inr by (simp add: drain_body_def)
      show ?thesis
        by (simp add: 1 2 capture_pass_prepend)
    qed
  qed
qed

lemma try_body_prepend:
  "try_body env extractOptions matchAll parsed (prepend evs w)
     = (prepend evs (fst (try_body env extractOptions matchAll parsed w)),
        snd (try_body env extractOptions matchAll parsed w))"
  by (cases parsed) (simp_all add: try_body_def drain_body_prepend)

lemma catch_error_prepend:
  "catch_error (prepend evs w, err) = prepend evs (catch_error (w, err))"
  by (simp add: catch_error_def prepend_def split: option.split)

lemma finally_close_prepend:
  "finally_close env (prepend evs w)
     = (prepend evs (fst (finally_close env w)), snd (finally_close env w))"
  by (simp add: finally_close_def prepend_def split: option.split)

lemma complete_entry_installExit:
  "complete_entry (env\<lparr>installExit := code\<rparr>) extractOptions matchAll host entry
     = complete_entry env extractOptions matchAll host entry"
  by (simp add: complete_entry_def complete_stub_def
        cong: jsval.case_cong sum.case_cong if_cong)

lemma completion_pass_installExit:
  "completion_pass (env\<lparr>installExit := code\<rparr>) extractOptions matchAll host queue
     = completion_pass env extractOptions matchAll host queue"
  by (induction queue) (simp_all add: complete_entry_installExit cong: sum.case_cong prod.case_cong)

lemma capture_job_installExit:
  "capture_job (env\<lparr>installExit := code\<rparr>) host n k entry w = capture_job env host n k entry w"
  by (simp add: capture_job_def filename_of_def Let_def cong: sum.case_cong option.case_cong)

lemma capture_pass_installExit:
  "capture_pass (env\<lparr>installExit := code\<rparr>) host n k queue w = capture_pass env host n k queue w"
  by (induction queue arbitrary: k w) (simp_all add: capture_job_installExit)

lemma try_body_installExit:
  "try_body (env\<lparr>installExit := code\<rparr>) extractOptions matchAll parsed w
     = try_body env extractOptions matchAll parsed w"
  by (simp add: try_body_def drain_body_def completion_pass_installExit capture_pass_installExit
        cong: sum.case_cong bool.case_cong prod.case_cong)

lemma finally_close_installExit:
  "finally_close (env\<lparr>installExit := code\<rparr>) w = finally_close env w"
  by (simp add: finally_close_def cong: option.case_cong)

lemma launch_prepend: "launch env queue w = prepend (launch_events env w) (launched queue w)"
  by (simp add: launch_def launched_def launch_events_def prepend_def)

text \<open>The outcome of a drain past the hook, from the outcome of the steps after the launch.\<close>

lemma captureScreenshots_prepend:
  assumes "callHook env (screenshotQueue w) = Inr queue" and "queue \<noteq> []"
  shows "captureScreenshots env extractOptions matchAll w =
     (case read_host (stdout env) of
        None \<Rightarrow> Waiting (prepend (launch_events env w) (launched queue w))
      | Some parsed \<Rightarrow>
          (case snd (finally_close env (catch_error
                       (try_body env extractOptions matchAll parsed (launched queue w)))) of
             Some err \<Rightarrow>
               Threw err (prepend (launch_events env w)
                 (fst (finally_close env (catch_error
                    (try_body env extractOptions matchAll parsed (launched queue w))))))
           | None \<Rightarrow>
               Returned (prepend (launch_events env w)
                 ((fst (finally_close env (catch_error
                    (try_body env extractOptions matchAll parsed (launched queue w)))))
                  \<lparr>screenshotQueue := []\<rparr>))))"
proof (cases "read_host (stdout env)")
  case None
  with assms show ?thesis
    by (simp add: captureScreenshots_def launch_prepend)
next
  case (Some parsed)
  obtain wt et where t: "try_body env extractOptions matchAll parsed (launched queue w) = (wt, et)"
    by (cases "try_body env extractOptions matchAll parsed (launched queue w)")
  obtain wf ef where f: "finally_close env (catch_error (wt, et)) = (wf, ef)"
    by (cases "finally_close env (catch_error (wt, et))")
  have "finally_close env (catch_error
          (try_body env extractOptions matchAll parsed (launch env queue w)))
        = (prepend (launch_events env w) wf, ef)"
    by (simp add: launch_prepend try_body_prepend t catch_error_prepend finally_close_prepend f)
  with assms Some t f show ?thesis
    by (simp add: captureScreenshots_def prepend_def split: option.split)
qed

text \<open>
  C9: whatever the exit code of the installer, a drain with a queue that is not empty goes
  on as it does after the exit code \<open>0\<close>. After the installer's exit, with the error line
  exactly when the code is not \<open>0\<close>, the preview server is started; the call ends in the same
  way, in the same state and with the same trace but for the error line; and the browser is
  launched once the preview server has printed its address.
\<close>

theorem installer_exit_not_fatal:
  assumes "callHook env (screenshotQueue w) = Inr queue" and "queue \<noteq> []"
  shows "prefix (events w @ [InfoEnsuringChromium, SpawnInstaller]
                   @ (if code \<noteq> Some 0 then [ErrorInstallFailed] else [])
                   @ [SpawnPreview])
           (events (world_of
              (captureScreenshots (env\<lparr>installExit := code\<rparr>) extractOptions matchAll w)))
       \<and> same_kind
           (captureScreenshots (env\<lparr>installExit := code\<rparr>) extractOptions matchAll w)
           (captureScreenshots (env\<lparr>installExit := Some 0\<rparr>) extractOptions matchAll w)
       \<and> (world_of (captureScreenshots (env\<lparr>installExit := code\<rparr>) extractOptions matchAll w))
            \<lparr>events := []\<rparr>
         = (world_of (captureScreenshots (env\<lparr>installExit := Some 0\<rparr>) extractOptions matchAll w))
            \<lparr>events := []\<rparr>
       \<and> filter (\<lambda>ev. ev \<noteq> ErrorInstallFailed)
           (events (world_of
              (captureScreenshots (env\<lparr>installExit := code\<rparr>) extractOptions matchAll w)))
         = filter (\<lambda>ev. ev \<noteq> ErrorInstallFailed)
           (events (world_of
              (captureScreenshots (env\<lparr>installExit := Some 0\<rparr>) extractOptions matchAll w)))
       \<and> (\<forall>host. read_host (stdout env) = Some (Inr host) \<longrightarrow>
            CreateBrowser \<in> set (events (world_of
              (captureScreenshots (env\<lparr>installExit := code\<rparr>) extractOptions matchAll w))))"
proof -
  have hook: "\<And>c. callHook (env\<lparr>installExit := c\<rparr>) (screenshotQueue w) = Inr queue"
    using assms(1) by simp
  have le: "\<And>c. launch_events (env\<lparr>installExit := c\<rparr>) w =
      events w @ [InfoEnsuringChromium, SpawnInstaller]
        @ (if c \<noteq> Some 0 then [ErrorInstallFailed] else []) @ [SpawnPreview]"
    by (simp add: launch_events_def)
  note cs = captureScreenshots_prepend [OF hook assms(2)]
  show ?thesis
  proof (cases "read_host (stdout env)")
    case None
    then show ?thesis
      by (simp add: cs le prepend_def)
  next
    case (Some parsed)
    define tail where "tail = finally_close env (catch_error
        (try_body env extractOptions matchAll parsed (launched queue w)))"
    have cb: "\<forall>host. parsed = Inr host \<longrightarrow> CreateBrowser \<in> set (events (fst tail))"
    proof (intro allI impI)
      fix host assume p: "parsed = Inr host"
      obtain rest where "events (fst (drain_body env extractOptions matchAll host (launched queue w)))
          = events (launched queue w) @ CreateBrowser # rest"
        using drain_body_events by blast
      moreover obtain more where "events (catch_error
            (try_body env extractOptions matchAll parsed (launched queue w)))
          = events (fst (try_body env extractOptions matchAll parsed (launched queue w))) @ more"
        using catch_error_events by blast
      ultimately have "CreateBrowser \<in> set (events (catch_error
            (try_body env extractOptions matchAll parsed (launched queue w))))"
        by (simp add: try_body_def p)
      then show "CreateBrowser \<in> set (events (fst tail))"
        by (auto simp: tail_def finally_close_def split: option.split)
    qed
    have out: "\<And>c. captureScreenshots (env\<lparr>installExit := c\<rparr>) extractOptions matchAll w =
        (case snd tail of
           Some err \<Rightarrow> Threw err (prepend (launch_events (env\<lparr>installExit := c\<rparr>) w) (fst tail))
         | None \<Rightarrow> Returned (prepend (launch_events (env\<lparr>installExit := c\<rparr>) w)
                     ((fst tail)\<lparr>screenshotQueue := []\<rparr>)))"
      using Some unfolding tail_def
      by (simp add: cs try_body_installExit finally_close_installExit cong: option.case_cong)
    have ev: "\<And>c. events (world_of
          (captureScreenshots (env\<lparr>installExit := c\<rparr>) extractOptions matchAll w))
        = launch_events (env\<lparr>installExit := c\<rparr>) w @ events (fst tail)"
      by (cases "snd tail") (simp_all add: out prepend_def)
    have rest: "\<And>c. (world_of
          (captureScreenshots (env\<lparr>installExit := c\<rparr>) extractOptions matchAll w))\<lparr>events := []\<rparr>
        = (case snd tail of Some err \<Rightarrow> fst tail | None \<Rightarrow> (fst tail)\<lparr>screenshotQueue := []\<rparr>)
            \<lparr>events := []\<rparr>"
      by (cases "snd tail") (simp_all add: out prepend_def)
    have kind: "same_kind
        (captureScreenshots (env\<lparr>installExit := code\<rparr>) extractOptions matchAll w)
        (captureScreenshots (env\<lparr>installExit := Some 0\<rparr>) extractOptions matchAll w)"
      by (cases "snd tail") (simp_all add: out)
    from cb Some have browser_called: "\<forall>host. read_host (stdout env) = Some (Inr host) \<longrightarrow>
        CreateBrowser \<in> set (events (world_of
          (captureScreenshots (env\<lparr>installExit := code\<rparr>) extractOptions matchAll w)))"
      by (simp add: ev)
    show ?thesis
      using kind browser_called by (simp add: ev rest le)
  qed
qed

theorem installer_exit_not_fatal_witness:
  "callHook test_env (screenshotQueue queued_world) = Inr [stub_c, job_b]
   \<and> [stub_c, job_b] \<noteq> []
   \<and> read_host (stdout test_env) = Some (Inr ''http://localhost:3000'')
   \<and> prefix [InfoEnsuringChromium, SpawnInstaller, ErrorInstallFailed, SpawnPreview]
        (events (world_of (captureScreenshots (test_env\<lparr>installExit := Some 1\<rparr>)
           (\<lambda>html. JUndefined) (\<lambda>route. []) queued_world)))
   \<and> prefix [InfoEnsuringChromium, SpawnInstaller, SpawnPreview]
        (events (world_of (captureScreenshots (test_env\<lparr>installExit := Some 0\<rparr>)
           (\<lambda>html. JUndefined) (\<lambda>route. []) queued_world)))
   \<and> same_kind
        (captureScreenshots (test_env\<lparr>installExit := Some 1\<rparr>) (\<lambda>html. JUndefined) (\<lambda>route. [])
           queued_world)
        (captureScreenshots (test_env\<lparr>installExit := Some 0\<rparr>) (\<lambda>html. JUndefined) (\<lambda>route. [])
           queued_world)
   \<and> CreateBrowser \<in> set (events (world_of (captureScreenshots (test_env\<lparr>installExit := Some 1\<rparr>)
        (\<lambda>html. JUndefined) (\<lambda>route. []) queued_world)))
   \<and> captureScreenshots (test_env\<lparr>installExit := Some 1\<rparr>) (\<lambda>html. JUndefined) (\<lambda>route. [])
        queued_world
      = Returned \<lparr>screenshotQueue = [], optionCacheStorage = Map.empty, files = Map.empty,
         previewProcess = Some Stopped, browser = Some Stopped,
         events = [InfoEnsuringChromium, SpawnInstaller, ErrorInstallFailed, SpawnPreview,
                   CreateBrowser, InfoPrerendering 2, ConsoleError (Failure ''ECONNREFUSED''),
                   BrowserClose, PreviewKill]\<rparr>"
proof -
  have q: "[stub_c, job_b] \<noteq> []" by simp
  have e: "events queued_world = []"
    by (simp add: queued_world_def empty_world_def)
  have same: "test_env\<lparr>installExit := Some 1\<rparr> = test_env"
    by (simp add: test_env_def)
  have host: "read_host (stdout test_env) = Some (Inr ''http://localhost:3000'')"
    by (rule test_hosts(1))
  from installer_exit_not_fatal [OF test_hook(1) q, where code = "Some 1"
      and extractOptions = "\<lambda>html. JUndefined" and matchAll = "\<lambda>route. []"] host
  have 1: "prefix [InfoEnsuringChromium, SpawnInstaller, ErrorInstallFailed, SpawnPreview]
        (events (world_of (captureScreenshots (test_env\<lparr>installExit := Some 1\<rparr>)
           (\<lambda>html. JUndefined) (\<lambda>route. []) queued_world)))
      \<and> same_kind
        (captureScreenshots (test_env\<lparr>installExit := Some 1\<rparr>) (\<lambda>html. JUndefined) (\<lambda>route. [])
           queued_world)
        (captureScreenshots (test_env\<lparr>installExit := Some 0\<rparr>) (\<lambda>html. JUndefined) (\<lambda>route. [])
           queued_world)
      \<and> CreateBrowser \<in> set (events (world_of (captureScreenshots (test_env\<lparr>installExit := Some 1\<rparr>)
        (\<lambda>html. JUndefined) (\<lambda>route. []) queued_world)))"
    by (simp add: e)
  from installer_exit_not_fatal [OF test_hook(1) q, where code = "Some 0"
      and extractOptions = "\<lambda>html. JUndefined" and matchAll = "\<lambda>route. []"]
  have 2: "prefix [InfoEnsuringChromium, SpawnInstaller, SpawnPreview]
        (events (world_of (captureScreenshots (test_env\<lparr>installExit := Some 0\<rparr>)
           (\<lambda>html. JUndefined) (\<lambda>route. []) queued_world)))"
    by (simp add: e)
  have 3: "captureScreenshots (test_env\<lparr>installExit := Some 1\<rparr>) (\<lambda>html. JUndefined) (\<lambda>route. [])
        queued_world
      = Returned \<lparr>screenshotQueue = [], optionCacheStorage = Map.empty, files = Map.empty,
         previewProcess = Some Stopped, browser = Some Stopped,
         events = [InfoEnsuringChromium, SpawnInstaller, ErrorInstallFailed, SpawnPreview,
                   CreateBrowser, InfoPrerendering 2, ConsoleError (Failure ''ECONNREFUSED''),
                   BrowserClose, PreviewKill]\<rparr>"
    unfolding same by (rule test_drains(1))
  from 1 2 3 q host test_hook(1) show ?thesis
    by blast
qed

section \<open>The options handed to the capture\<close>

text \<open>
  C1, as the specification states it, taken at two overlays that both set the nested field
  \<open>props\<close>: the shallow merge keeps the \<open>props\<close> of the more specific overlay alone, while
  the options handed to the capture hold the recursive merge of both.
\<close>

theorem shallow_merge_counterexample:
  "get (screenshot_options [(''width'', JNum 1200)]
          (make_entry ''/blog/post-1'' (JObj [(''provider'', JStr ''browser'')])
             (route_rules
                [[(''ogImage'', JObj [(''props'', JObj [(''a'', JNum 1)])])],
                 [(''ogImage'', JObj [(''props'', JObj [(''b'', JNum 2)])])]]))
          ''http://localhost:3000'') ''props''
     = JObj [(''a'', JNum 1), (''b'', JNum 2)]
   \<and> get (spec_resolve [(''provider'', JStr ''browser'')]
            [[(''props'', JObj [(''a'', JNum 1)])], [(''props'', JObj [(''b'', JNum 2)])]]
            [(''width'', JNum 1200)]) ''props''
     = JObj [(''b'', JNum 2)]
   \<and> get (screenshot_options [(''width'', JNum 1200)]
          (make_entry ''/blog/post-1'' (JObj [(''provider'', JStr ''browser'')])
             (route_rules
                [[(''ogImage'', JObj [(''props'', JObj [(''a'', JNum 1)])])],
                 [(''ogImage'', JObj [(''props'', JObj [(''b'', JNum 2)])])]]))
          ''http://localhost:3000'') ''props''
     \<noteq> get (spec_resolve [(''provider'', JStr ''browser'')]
            [[(''props'', JObj [(''a'', JNum 1)])], [(''props'', JObj [(''b'', JNum 2)])]]
            [(''width'', JNum 1200)]) ''props''"
  by code_simp

text \<open>
  An entry the hook has built has at least its \<open>route\<close> and its \<open>path\<close>, so the completion
  pass does not resolve it again; it adds \<open>html\<close> when the entry names a component.
\<close>

lemma length_update_ge: "length al \<le> length (AList.update k v al)"
  by (induction al) auto

lemma length_spread_ge: "length acc \<le> length (spread acc src)"
proof (induction src arbitrary: acc)
  case Nil
  then show ?case by (simp add: spread_def)
next
  case (Cons p src)
  have "spread acc (p # src) = spread (AList.update (fst p) (snd p) acc) src"
    by (simp add: spread_def case_prod_beta)
  with Cons [of "AList.update (fst p) (snd p) acc"] length_update_ge [of acc "fst p" "snd p"]
  show ?case by simp
qed

lemma length_make_entry: "2 \<le> length (make_entry route e rules)"
proof -
  have "2 \<le> length (spread [(''route'', JStr route), (''path'', JStr (entry_path e route))]
                      (own_props e))"
    using length_spread_ge [of "[(''route'', JStr route), (''path'', JStr (entry_path e route))]"
        "own_props e"]
    by simp
  then show ?thesis
    unfolding make_entry_def
    using length_spread_ge
      [of "spread [(''route'', JStr route), (''path'', JStr (entry_path e route))] (own_props e)"
          "own_props (get rules ''ogImage'')"]
    by linarith
qed

lemma complete_stub_resolved:
  "length entry \<noteq> 1 \<Longrightarrow> complete_stub env extractOptions matchAll host entry = Inr entry"
  by (simp add: complete_stub_def split: jsval.split)

lemma complete_entry_resolved:
  assumes "length entry \<noteq> 1"
  shows "complete_entry env extractOptions matchAll host entry =
           (if truthy (get entry ''component'')
            then (case fetch env None (get entry ''path'') of
                    Inl err \<Rightarrow> Inl (err, entry)
                  | Inr h \<Rightarrow> Inr (AList.update ''html'' (JStr h) entry))
            else Inr entry)"
  by (simp add: complete_entry_def complete_stub_resolved [OF assms])

lemma completion_pass_each:
  "completion_pass env extractOptions matchAll host queue = Inr queue' \<Longrightarrow>
   list_all2 (\<lambda>entry entry'. complete_entry env extractOptions matchAll host entry = Inr entry')
     queue queue'"
proof (induction queue arbitrary: queue')
  case Nil
  then show ?case by simp
next
  case (Cons entry rest)
  then show ?case
    by (auto split: sum.splits prod.splits)
qed

lemma drain_body_calls:
  assumes "createBrowser env = Inr True"
    and "completion_pass env extractOptions matchAll host (screenshotQueue w) = Inr queue'"
  shows "filter is_call (events (fst (drain_body env extractOptions matchAll host w)))
           = filter is_call (events w)
             @ map (\<lambda>entry'. CallScreenshot (screenshot_options (defaults env) entry' host)) queue'"
  using assms by (simp add: drain_body_def capture_pass_calls)

lemma get_update_options:
  assumes "wf_obj entry"
  shows "get (screenshot_options d (AList.update ''html'' (JStr h) entry) host) k =
           (if k = ''host'' then JStr host
            else if k = ''html'' then JStr h
            else get (screenshot_options d entry host) k)"
proof -
  have "wf_obj (AList.update ''html'' (JStr h) entry)"
    using assms by (simp add: wf_obj_def distinct_update)
  then show ?thesis
    using assms by (simp add: get_screenshot_options update_conv')
qed

text \<open>
  C1, as the code has it. The options handed to the capture for a route are the spread
  \<open>{...defaults, ...entry, host}\<close> over the entry the completion pass has left, and the hook
  has built the entry as \<open>{route, path, ...extracted, ...overlay}\<close>. Field by field, \<open>host\<close> is
  the preview server's address; \<open>html\<close> is the markup the completion pass has fetched from
  the entry's \<open>path\<close> when the entry names a component; and any other field comes from the
  merged overlay if it has the field, else from the extracted options, else from the
  \<open>route\<close> and \<open>path\<close> the hook sets, else from the defaults. The merged overlay is \<open>defu\<close>
  over the matched rules with the most specific rule first: a scalar field of the most
  specific overlay wins; and for two overlays, a field that the more specific one lacks or
  holds as \<open>null\<close> or \<open>undefined\<close> comes from the less specific one, two objects under the
  same field are merged recursively, and two arrays are concatenated, the more specific
  first. In a drain whose browser launch and completion pass succeed, the capture is called
  once for each entry of the queue, in order, with these options of the completed entry.
\<close>

theorem resolved_options_layers:
  assumes "\<forall>r \<in> set ms. wf_rule r" and "wf_obj (own_props e)"
    and "entry = make_entry route e (route_rules ms)"
    and "complete_entry env extractOptions matchAll host entry = Inr entry'"
  shows "get (screenshot_options (defaults env) entry' host) ''host'' = JStr host
         \<and> (truthy (get entry ''component'')
            \<longrightarrow> (\<exists>h. fetch env None (get entry ''path'') = Inr h
                     \<and> get (screenshot_options (defaults env) entry' host) ''html'' = JStr h))
         \<and> (k \<noteq> ''host'' \<and> (k = ''html'' \<longrightarrow> \<not> truthy (get entry ''component''))
            \<longrightarrow> get (screenshot_options (defaults env) entry' host) k =
                 (case map_of (own_props (get (route_rules ms) ''ogImage'')) k of
                    Some v \<Rightarrow> v
                  | None \<Rightarrow>
                      (case map_of (own_props e) k of
                         Some v \<Rightarrow> v
                       | None \<Rightarrow>
                           if k = ''route'' then JStr route
                           else if k = ''path'' then JStr (entry_path e route)
                           else get (defaults env) k)))
         \<and> (ms \<noteq> [] \<and> get (last ms) ''ogImage'' = JObj ob \<and> map_of ob k = Some v
              \<and> scalar v \<and> k \<noteq> ''__proto__'' \<and> k \<noteq> ''constructor''
            \<longrightarrow> map_of (own_props (get (route_rules ms) ''ogImage'')) k = Some v)
         \<and> (ms = [r1, r2] \<and> get r1 ''ogImage'' = JObj o1 \<and> get r2 ''ogImage'' = JObj o2
            \<longrightarrow> (map_of o2 k = None \<or> map_of o2 k = Some JNull \<or> map_of o2 k = Some JUndefined
                  \<longrightarrow> map_of (own_props (get (route_rules ms) ''ogImage'')) k = map_of o1 k)
                \<and> (k \<noteq> ''__proto__'' \<and> k \<noteq> ''constructor''
                     \<and> map_of o2 k = Some (JObj a) \<and> map_of o1 k = Some (JObj b)
                  \<longrightarrow> map_of (own_props (get (route_rules ms) ''ogImage'')) k
                        = Some (JObj (defu_pair a b)))
                \<and> (k \<noteq> ''__proto__'' \<and> k \<noteq> ''constructor''
                     \<and> map_of o2 k = Some (JArr xs) \<and> map_of o1 k = Some (JArr ys)
                  \<longrightarrow> map_of (own_props (get (route_rules ms) ''ogImage'')) k
                        = Some (JArr (xs @ ys))))
         \<and> (createBrowser env = Inr True
              \<and> completion_pass env extractOptions matchAll host (screenshotQueue w) = Inr queue'
            \<longrightarrow> list_all2
                  (\<lambda>queued completed.
                     complete_entry env extractOptions matchAll host queued = Inr completed)
                  (screenshotQueue w) queue'
                \<and> filter is_call (events (fst (drain_body env extractOptions matchAll host w)))
                  = filter is_call (events w)
                    @ map (\<lambda>completed.
                             CallScreenshot (screenshot_options (defaults env) completed host))
                        queue')"
proof -
  let ?ov = "own_props (get (route_rules ms) ''ogImage'')"
  let ?layers = "\<lambda>k. (case map_of ?ov k of
                    Some v \<Rightarrow> v
                  | None \<Rightarrow>
                      (case map_of (own_props e) k of
                         Some v \<Rightarrow> v
                       | None \<Rightarrow>
                           if k = ''route'' then JStr route
                           else if k = ''path'' then JStr (entry_path e route)
                           else get (defaults env) k))"
  have wf_ov: "wf_obj ?ov"
    using assms(1) by (rule wf_overlay_route_rules)
  have wf_entry: "wf_obj entry"
    unfolding assms(3) by (rule wf_make_entry)
  have base: "\<And>k. get (screenshot_options (defaults env) entry host) k =
      (if k = ''host'' then JStr host else ?layers k)"
  proof -
    fix k
    show "get (screenshot_options (defaults env) entry host) k =
      (if k = ''host'' then JStr host else ?layers k)"
      unfolding assms(3)
      using assms(2) wf_ov
      by (cases "map_of ?ov k"; cases "map_of (own_props e) k")
         (simp_all add: get_screenshot_options [OF wf_make_entry] get_make_entry)
  qed
  have "length entry \<noteq> 1"
    unfolding assms(3) using length_make_entry [of route e "route_rules ms"] by simp
  note fin = assms(4) [unfolded complete_entry_resolved [OF this]]
  have host: "get (screenshot_options (defaults env) entry' host) ''host'' = JStr host"
  proof (cases "truthy (get entry ''component'')")
    case True
    with fin obtain h where "entry' = AList.update ''html'' (JStr h) entry"
      by (auto split: sum.splits)
    then show ?thesis by (simp add: get_update_options [OF wf_entry])
  next
    case False
    with fin have "entry' = entry" by simp
    then show ?thesis by (simp add: base)
  qed
  have html: "truthy (get entry ''component'')
      \<longrightarrow> (\<exists>h. fetch env None (get entry ''path'') = Inr h
               \<and> get (screenshot_options (defaults env) entry' host) ''html'' = JStr h)"
  proof
    assume "truthy (get entry ''component'')"
    with fin obtain h where "fetch env None (get entry ''path'') = Inr h"
        and "entry' = AList.update ''html'' (JStr h) entry"
      by (auto split: sum.splits)
    then show "\<exists>h. fetch env None (get entry ''path'') = Inr h
               \<and> get (screenshot_options (defaults env) entry' host) ''html'' = JStr h"
      by (simp add: get_update_options [OF wf_entry])
  qed
  have other: "k \<noteq> ''host'' \<and> (k = ''html'' \<longrightarrow> \<not> truthy (get entry ''component''))
      \<longrightarrow> get (screenshot_options (defaults env) entry' host) k = ?layers k"
  proof
    assume k: "k \<noteq> ''host'' \<and> (k = ''html'' \<longrightarrow> \<not> truthy (get entry ''component''))"
    show "get (screenshot_options (defaults env) entry' host) k = ?layers k"
    proof (cases "truthy (get entry ''component'')")
      case True
      with fin obtain h where "entry' = AList.update ''html'' (JStr h) entry"
        by (auto split: sum.splits)
      with k True show ?thesis
        by (simp add: get_update_options [OF wf_entry] base)
    next
      case False
      with fin have "entry' = entry" by simp
      with k show ?thesis by (simp add: base)
    qed
  qed
  have scalar_wins: "ms \<noteq> [] \<and> get (last ms) ''ogImage'' = JObj ob \<and> map_of ob k = Some v
              \<and> scalar v \<and> k \<noteq> ''__proto__'' \<and> k \<noteq> ''constructor''
            \<longrightarrow> map_of ?ov k = Some v"
    using assms(1) by (simp add: overlay_most_specific_scalar)
  have two: "ms = [r1, r2] \<and> get r1 ''ogImage'' = JObj o1 \<and> get r2 ''ogImage'' = JObj o2
            \<longrightarrow> (map_of o2 k = None \<or> map_of o2 k = Some JNull \<or> map_of o2 k = Some JUndefined
                  \<longrightarrow> map_of ?ov k = map_of o1 k)
                \<and> (k \<noteq> ''__proto__'' \<and> k \<noteq> ''constructor''
                     \<and> map_of o2 k = Some (JObj a) \<and> map_of o1 k = Some (JObj b)
                  \<longrightarrow> map_of ?ov k = Some (JObj (defu_pair a b)))
                \<and> (k \<noteq> ''__proto__'' \<and> k \<noteq> ''constructor''
                     \<and> map_of o2 k = Some (JArr xs) \<and> map_of o1 k = Some (JArr ys)
                  \<longrightarrow> map_of ?ov k = Some (JArr (xs @ ys)))"
  proof
    assume t: "ms = [r1, r2] \<and> get r1 ''ogImage'' = JObj o1 \<and> get r2 ''ogImage'' = JObj o2"
    with assms(1) have "wf_rule r1" "wf_rule r2" by simp_all
    with t have field: "map_of ?ov k = defu_field k (map_of o2 k) (map_of o1 k)"
      by (simp add: overlay_two)
    show "(map_of o2 k = None \<or> map_of o2 k = Some JNull \<or> map_of o2 k = Some JUndefined
                  \<longrightarrow> map_of ?ov k = map_of o1 k)
                \<and> (k \<noteq> ''__proto__'' \<and> k \<noteq> ''constructor''
                     \<and> map_of o2 k = Some (JObj a) \<and> map_of o1 k = Some (JObj b)
                  \<longrightarrow> map_of ?ov k = Some (JObj (defu_pair a b)))
                \<and> (k \<noteq> ''__proto__'' \<and> k \<noteq> ''constructor''
                     \<and> map_of o2 k = Some (JArr xs) \<and> map_of o1 k = Some (JArr ys)
                  \<longrightarrow> map_of ?ov k = Some (JArr (xs @ ys)))"
      unfolding field by (auto simp: defu_field_def)
  qed
  have link: "createBrowser env = Inr True
              \<and> completion_pass env extractOptions matchAll host (screenshotQueue w) = Inr queue'
            \<longrightarrow> list_all2
                  (\<lambda>queued completed.
                     complete_entry env extractOptions matchAll host queued = Inr completed)
                  (screenshotQueue w) queue'
                \<and> filter is_call (events (fst (drain_body env extractOptions matchAll host w)))
                  = filter is_call (events w)
                    @ map (\<lambda>completed.
                             CallScreenshot (screenshot_options (defaults env) completed host))
                        queue'"
    by (simp add: completion_pass_each drain_body_calls)
  from host html other scalar_wins two link show ?thesis
    by blast
qed

text \<open>The rules, the entries and the completed entries of the concrete inputs.\<close>

lemma test_rules:
  "get (route_rules blog_rules) ''ogImage'' = JObj [(''width'', JNum 800), (''height'', JNum 500)]"
  "get (route_rules nested_rules) ''ogImage''
     = JObj [(''props'', JObj [(''a'', JNum 1), (''b'', JNum 2)]),
             (''tags'', JArr [JStr ''y'', JStr ''x''])]"
  by (simp_all add: route_rules_def blog_rules_def nested_rules_def defu_def get_def)

lemma test_entries:
  "make_entry ''/blog/post-1'' page_options (route_rules blog_rules)
     = [(''route'', JStr ''/blog/post-1''), (''path'', JStr ''/blog/post-1''),
        (''provider'', JStr ''browser''), (''static'', JBool True), (''width'', JNum 800),
        (''height'', JNum 500)]"
  "make_entry ''/blog/post-1'' page_options (route_rules nested_rules)
     = [(''route'', JStr ''/blog/post-1''), (''path'', JStr ''/blog/post-1''),
        (''provider'', JStr ''browser''), (''static'', JBool True), (''width'', JNum 600),
        (''props'', JObj [(''a'', JNum 1), (''b'', JNum 2)]),
        (''tags'', JArr [JStr ''y'', JStr ''x''])]"
  "make_entry ''/blog/post-1'' card_options (route_rules blog_rules)
     = [(''route'', JStr ''/blog/post-1''),
        (''path'', JStr ''/api/og-image-html?path=/blog/post-1''),
        (''provider'', JStr ''browser''), (''component'', JStr ''Card''), (''width'', JNum 800),
        (''height'', JNum 500)]"
  unfolding make_entry_def test_rules
  by (simp_all add: page_options_def card_options_def entry_path_def spread_def get_def)

lemma test_completed:
  "complete_entry test_env (\<lambda>html. JUndefined) (\<lambda>route. []) ''http://localhost:3000''
     (make_entry ''/blog/post-1'' page_options (route_rules blog_rules))
   = Inr (make_entry ''/blog/post-1'' page_options (route_rules blog_rules))"
  "complete_entry test_env (\<lambda>html. JUndefined) (\<lambda>route. []) ''http://localhost:3000''
     (make_entry ''/blog/post-1'' page_options (route_rules nested_rules))
   = Inr (make_entry ''/blog/post-1'' page_options (route_rules nested_rules))"
  "complete_entry preview_env (\<lambda>html. JUndefined) (\<lambda>route. []) ''http://localhost:3000''
     (make_entry ''/blog/post-1'' card_options (route_rules blog_rules))
   = Inr (AList.update ''html'' (JStr ''<div>card</div>'')
            (make_entry ''/blog/post-1'' card_options (route_rules blog_rules)))"
  "complete_entry test_env (\<lambda>html. JUndefined) (\<lambda>route. []) ''http://localhost:3000'' job_b
   = Inr job_b"
  unfolding test_entries
  by (simp_all add: complete_entry_def complete_stub_def get_def preview_env_def test_env_def
        job_b_def)

theorem resolved_options_layers_witness:
  "list_all wf_rule blog_rules \<and> list_all wf_rule nested_rules
   \<and> wf_obj (own_props page_options) \<and> wf_obj (own_props card_options)
   \<and> complete_entry test_env (\<lambda>html. JUndefined) (\<lambda>route. []) ''http://localhost:3000''
        (make_entry ''/blog/post-1'' page_options (route_rules blog_rules))
      = Inr (make_entry ''/blog/post-1'' page_options (route_rules blog_rules))
   \<and> get (screenshot_options (defaults test_env)
            (make_entry ''/blog/post-1'' page_options (route_rules blog_rules))
            ''http://localhost:3000'') ''width'' = JNum 800
   \<and> get (screenshot_options (defaults test_env)
            (make_entry ''/blog/post-1'' page_options (route_rules blog_rules))
            ''http://localhost:3000'') ''height'' = JNum 500
   \<and> get (screenshot_options (defaults test_env)
            (make_entry ''/blog/post-1'' page_options (route_rules blog_rules))
            ''http://localhost:3000'') ''component'' = JStr ''OgImageBasic''
   \<and> get (screenshot_options (defaults test_env)
            (make_entry ''/blog/post-1'' page_options (route_rules blog_rules))
            ''http://localhost:3000'') ''host'' = JStr ''http://localhost:3000''
   \<and> get (screenshot_options (defaults test_env)
            (make_entry ''/blog/post-1'' page_options (route_rules nested_rules))
            ''http://localhost:3000'') ''props'' = JObj [(''a'', JNum 1), (''b'', JNum 2)]
   \<and> get (screenshot_options (defaults test_env)
            (make_entry ''/blog/post-1'' page_options (route_rules nested_rules))
            ''http://localhost:3000'') ''tags'' = JArr [JStr ''y'', JStr ''x'']
   \<and> truthy (get (make_entry ''/blog/post-1'' card_options (route_rules blog_rules)) ''component'')
   \<and> complete_entry preview_env (\<lambda>html. JUndefined) (\<lambda>route. []) ''http://localhost:3000''
        (make_entry ''/blog/post-1'' card_options (route_rules blog_rules))
      = Inr (AList.update ''html'' (JStr ''<div>card</div>'')
               (make_entry ''/blog/post-1'' card_options (route_rules blog_rules)))
   \<and> get (screenshot_options (defaults preview_env)
            (AList.update ''html'' (JStr ''<div>card</div>'')
               (make_entry ''/blog/post-1'' card_options (route_rules blog_rules)))
            ''http://localhost:3000'') ''html'' = JStr ''<div>card</div>''
   \<and> createBrowser test_env = Inr True
   \<and> completion_pass test_env (\<lambda>html. JUndefined) (\<lambda>route. []) ''http://localhost:3000''
        (screenshotQueue (empty_world\<lparr>screenshotQueue := [job_b]\<rparr>)) = Inr [job_b]
   \<and> filter is_call (events (fst (drain_body test_env (\<lambda>html. JUndefined) (\<lambda>route. [])
        ''http://localhost:3000'' (empty_world\<lparr>screenshotQueue := [job_b]\<rparr>))))
      = [CallScreenshot (screenshot_options (defaults test_env) job_b ''http://localhost:3000'')]"
proof -
  let ?host = "''http://localhost:3000''"
  let ?blog = "make_entry ''/blog/post-1'' page_options (route_rules blog_rules)"
  let ?nested = "make_entry ''/blog/post-1'' page_options (route_rules nested_rules)"
  let ?card = "make_entry ''/blog/post-1'' card_options (route_rules blog_rules)"
  have h1: "\<forall>r \<in> set blog_rules. wf_rule r"
    by (simp add: blog_rules_def wf_rule_def wf_obj_def get_def)
  have n1: "\<forall>r \<in> set nested_rules. wf_rule r"
    by (simp add: nested_rules_def wf_rule_def wf_obj_def get_def)
  have h2: "wf_obj (own_props page_options)" and c2: "wf_obj (own_props card_options)"
    by (simp_all add: page_options_def card_options_def wf_obj_def)
  have d: "defaults test_env = module_defaults" "defaults preview_env = module_defaults"
      "createBrowser test_env = Inr True"
    by (simp_all add: test_env_def preview_env_def)
  have last: "blog_rules \<noteq> [] \<and> get (last blog_rules) ''ogImage'' = JObj [(''width'', JNum 800)]
      \<and> map_of [(''width'', JNum 800)] ''width'' = Some (JNum 800) \<and> scalar (JNum 800)"
    by (simp add: blog_rules_def get_def scalar_def)
  have two: "blog_rules = [[(''ogImage'', JObj [(''width'', JNum 1000), (''height'', JNum 500)])],
                          [(''ogImage'', JObj [(''width'', JNum 800)])]]
      \<and> get [(''ogImage'', JObj [(''width'', JNum 1000), (''height'', JNum 500)])] ''ogImage''
          = JObj [(''width'', JNum 1000), (''height'', JNum 500)]
      \<and> get [(''ogImage'', JObj [(''width'', JNum 800)])] ''ogImage'' = JObj [(''width'', JNum 800)]"
    by (simp add: blog_rules_def get_def)
  have nested: "nested_rules =
        [[(''ogImage'', JObj [(''props'', JObj [(''a'', JNum 1)]), (''tags'', JArr [JStr ''x''])])],
         [(''ogImage'', JObj [(''props'', JObj [(''b'', JNum 2)]), (''tags'', JArr [JStr ''y''])])]]
      \<and> get [(''ogImage'', JObj [(''props'', JObj [(''a'', JNum 1)]), (''tags'', JArr [JStr ''x''])])]
            ''ogImage''
          = JObj [(''props'', JObj [(''a'', JNum 1)]), (''tags'', JArr [JStr ''x''])]
      \<and> get [(''ogImage'', JObj [(''props'', JObj [(''b'', JNum 2)]), (''tags'', JArr [JStr ''y''])])]
            ''ogImage''
          = JObj [(''props'', JObj [(''b'', JNum 2)]), (''tags'', JArr [JStr ''y''])]"
    by (simp add: nested_rules_def get_def)
  note blog = resolved_options_layers [OF h1 h2 refl test_completed(1)]
  note nest = resolved_options_layers [OF n1 h2 refl test_completed(2)]
  note card = resolved_options_layers [OF h1 c2 refl test_completed(3)]
  have w: "map_of (own_props (get (route_rules blog_rules) ''ogImage'')) ''width'' = Some (JNum 800)"
    using blog [where k = "''width''" and ob = "[(''width'', JNum 800)]" and v = "JNum 800"] last
    by simp
  have h: "map_of (own_props (get (route_rules blog_rules) ''ogImage'')) ''height'' = Some (JNum 500)"
    using blog [where k = "''height''"
        and ?r1.0 = "[(''ogImage'', JObj [(''width'', JNum 1000), (''height'', JNum 500)])]"
        and ?r2.0 = "[(''ogImage'', JObj [(''width'', JNum 800)])]"
        and ?o1.0 = "[(''width'', JNum 1000), (''height'', JNum 500)]"
        and ?o2.0 = "[(''width'', JNum 800)]"] two
    by simp
  have c: "map_of (own_props (get (route_rules blog_rules) ''ogImage'')) ''component'' = None"
    using blog [where k = "''component''"
        and ?r1.0 = "[(''ogImage'', JObj [(''width'', JNum 1000), (''height'', JNum 500)])]"
        and ?r2.0 = "[(''ogImage'', JObj [(''width'', JNum 800)])]"
        and ?o1.0 = "[(''width'', JNum 1000), (''height'', JNum 500)]"
        and ?o2.0 = "[(''width'', JNum 800)]"] two
    by simp
  have p: "map_of (own_props (get (route_rules nested_rules) ''ogImage'')) ''props''
      = Some (JObj [(''a'', JNum 1), (''b'', JNum 2)])"
    using nest [where k = "''props''"
        and ?r1.0 = "[(''ogImage'', JObj [(''props'', JObj [(''a'', JNum 1)]), (''tags'', JArr [JStr ''x''])])]"
        and ?r2.0 = "[(''ogImage'', JObj [(''props'', JObj [(''b'', JNum 2)]), (''tags'', JArr [JStr ''y''])])]"
        and ?o1.0 = "[(''props'', JObj [(''a'', JNum 1)]), (''tags'', JArr [JStr ''x''])]"
        and ?o2.0 = "[(''props'', JObj [(''b'', JNum 2)]), (''tags'', JArr [JStr ''y''])]"
        and a = "[(''b'', JNum 2)]" and b = "[(''a'', JNum 1)]"] nested
    by simp
  have t: "map_of (own_props (get (route_rules nested_rules) ''ogImage'')) ''tags''
      = Some (JArr [JStr ''y'', JStr ''x''])"
    using nest [where k = "''tags''"
        and ?r1.0 = "[(''ogImage'', JObj [(''props'', JObj [(''a'', JNum 1)]), (''tags'', JArr [JStr ''x''])])]"
        and ?r2.0 = "[(''ogImage'', JObj [(''props'', JObj [(''b'', JNum 2)]), (''tags'', JArr [JStr ''y''])])]"
        and ?o1.0 = "[(''props'', JObj [(''a'', JNum 1)]), (''tags'', JArr [JStr ''x''])]"
        and ?o2.0 = "[(''props'', JObj [(''b'', JNum 2)]), (''tags'', JArr [JStr ''y''])]"
        and xs = "[JStr ''y'']" and ys = "[JStr ''x'']"] nested
    by simp
  have pc: "map_of (own_props page_options) ''component'' = None"
    by (simp add: page_options_def)
  have fields: "get (screenshot_options (defaults test_env) ?blog ?host) ''width'' = JNum 800"
      "get (screenshot_options (defaults test_env) ?blog ?host) ''height'' = JNum 500"
      "get (screenshot_options (defaults test_env) ?blog ?host) ''component'' = JStr ''OgImageBasic''"
      "get (screenshot_options (defaults test_env) ?blog ?host) ''host'' = JStr ?host"
      "get (screenshot_options (defaults test_env) ?nested ?host) ''props''
         = JObj [(''a'', JNum 1), (''b'', JNum 2)]"
      "get (screenshot_options (defaults test_env) ?nested ?host) ''tags''
         = JArr [JStr ''y'', JStr ''x'']"
    using w h c p t pc
      blog [where k = "''width''", THEN conjunct2, THEN conjunct2, THEN conjunct1]
      blog [where k = "''height''", THEN conjunct2, THEN conjunct2, THEN conjunct1]
      blog [where k = "''component''", THEN conjunct2, THEN conjunct2, THEN conjunct1]
      blog [THEN conjunct1]
      nest [where k = "''props''", THEN conjunct2, THEN conjunct2, THEN conjunct1]
      nest [where k = "''tags''", THEN conjunct2, THEN conjunct2, THEN conjunct1]
    by (simp_all add: d module_defaults_def get_def)
  have comp: "truthy (get ?card ''component'')"
    unfolding test_entries by (simp add: get_def)
  have pth: "get ?card ''path'' = JStr ''/api/og-image-html?path=/blog/post-1''"
    unfolding test_entries by (simp add: get_def)
  have html: "get (screenshot_options (defaults preview_env)
            (AList.update ''html'' (JStr ''<div>card</div>'') ?card) ?host) ''html''
        = JStr ''<div>card</div>''"
    using card [THEN conjunct2, THEN conjunct1] comp pth
    by (auto simp: preview_env_def)
  have cp: "completion_pass test_env (\<lambda>html. JUndefined) (\<lambda>route. []) ?host
        (screenshotQueue (empty_world\<lparr>screenshotQueue := [job_b]\<rparr>)) = Inr [job_b]"
    by (simp add: test_completed(4))
  have e: "events (empty_world\<lparr>screenshotQueue := [job_b]\<rparr>) = []"
    by (simp add: empty_world_def)
  have calls: "filter is_call (events (fst (drain_body test_env (\<lambda>html. JUndefined) (\<lambda>route. [])
        ?host (empty_world\<lparr>screenshotQueue := [job_b]\<rparr>))))
      = [CallScreenshot (screenshot_options (defaults test_env) job_b ?host)]"
    using blog [where w = "empty_world\<lparr>screenshotQueue := [job_b]\<rparr>" and queue' = "[job_b]",
        THEN conjunct2, THEN conjunct2, THEN conjunct2, THEN conjunct2, THEN conjunct2]
      d(3) cp
    by (simp add: e)
  show ?thesis
    using h1 n1 h2 c2 fields comp html calls cp d(3) test_completed(1,3)
    by (simp add: list_all_iff)
qed

end
